theory Spec2Isabelle
  imports Complex_Main "HOL-Library.List_Lexorder"
begin

section \<open>Python strings\<close>

text \<open>
  A Python \<^verbatim>\<open>str\<close> is a sequence of Unicode code points: \<^verbatim>\<open>len\<close> counts code points,
  \<^verbatim>\<open>in\<close> tests for a contiguous run of them, and comparison is lexicographic on them.
  HOL's \<open>char\<close> is a byte, so a string is modelled as the list of its code points;
  \<open>ustr\<close> embeds an ASCII literal. The column names the scripts compare with are Chinese
  and are written out by code point.
\<close>

type_synonym ustring = "nat list"

definition ustr :: "string \<Rightarrow> ustring" where
  "ustr s = map of_char s"

definition name_col :: ustring where
  "name_col = [0x540D, 0x79F0]"

definition standard_col :: ustring where
  "standard_col = [0x6807, 0x51C6]"

definition material_col :: ustring where
  "material_col = [0x6750, 0x8D28]"

definition remark_col :: ustring where
  "remark_col = [0x5907, 0x6CE8]"

definition description_col :: ustring where
  "description_col = ustr ''description''"

text \<open>
  \<^verbatim>\<open>str.lower()\<close>: exact on ASCII and on caseless scripts (CJK); cased letters outside
  ASCII are left as they are.
\<close>

definition lower_cp :: "nat \<Rightarrow> nat" where
  "lower_cp c = (if 65 \<le> c \<and> c \<le> 90 then c + 32 else c)"

definition py_lower :: "ustring \<Rightarrow> ustring" where
  "py_lower s = map lower_cp s"

text \<open>\<^verbatim>\<open>a in b\<close> on strings: \<open>a\<close> occurs in \<open>b\<close> as a contiguous run.\<close>

primrec py_in :: "'a list \<Rightarrow> 'a list \<Rightarrow> bool" where
  "py_in xs [] = (xs = [])"
| "py_in xs (y # ys) = (take (length xs) (y # ys) = xs \<or> py_in xs ys)"

text \<open>\<^verbatim>\<open>s.split(sep)\<close> for a one-character separator: never an empty list.\<close>

fun py_split :: "'a \<Rightarrow> 'a list \<Rightarrow> 'a list list" where
  "py_split sep [] = [[]]"
| "py_split sep (c # cs) =
     (if c = sep then [] # py_split sep cs
      else (case py_split sep cs of
              [] \<Rightarrow> [[c]]
            | p # ps \<Rightarrow> (c # p) # ps))"

text \<open>The characters \<^verbatim>\<open>str.isspace()\<close> accepts, which \<^verbatim>\<open>str.strip()\<close> removes.\<close>

definition py_isspace :: "nat \<Rightarrow> bool" where
  "py_isspace c =
     ((9 \<le> c \<and> c \<le> 13) \<or> (28 \<le> c \<and> c \<le> 32) \<or> c = 0x85 \<or> c = 0xA0 \<or> c = 0x1680
      \<or> (0x2000 \<le> c \<and> c \<le> 0x200A) \<or> c = 0x2028 \<or> c = 0x2029 \<or> c = 0x202F
      \<or> c = 0x205F \<or> c = 0x3000)"

definition py_strip :: "ustring \<Rightarrow> ustring" where
  "py_strip s = rev (dropWhile py_isspace (rev (dropWhile py_isspace s)))"

text \<open>\<^verbatim>\<open>s.replace("\n", " ")\<close>.\<close>

definition replace_newlines :: "ustring \<Rightarrow> ustring" where
  "replace_newlines s = map (\<lambda>c. if c = 10 then 32 else c) s"

definition comma :: nat where
  "comma = 44"

definition semicolon :: nat where
  "semicolon = 59"

section \<open>RecordDecomposer: tokenizing a free-text cell\<close>

text \<open>
  The splitting script (the \<^verbatim>\<open>extact2\<close> file that imports \<^verbatim>\<open>thefuzz\<close>),
  \<^verbatim>\<open>process_folder\<close>, lines 269 to 272:
  \<^verbatim>\<open>
  split1 = str(value).split(',')
  split2 = str(value).split(';')
  split = split1 if len(split1) > len(split2) else split2;
  split = [str(item).strip().replace("\n", " ") for item in split]
  \<close>
\<close>

definition choose_split :: "ustring \<Rightarrow> ustring list" where
  "choose_split v =
     (let split1 = py_split comma v;
          split2 = py_split semicolon v
      in if length split1 > length split2 then split1 else split2)"

definition tokenize :: "ustring \<Rightarrow> ustring list" where
  "tokenize v = map (\<lambda>item. replace_newlines (py_strip item)) (choose_split v)"

section \<open>Numbers as Python parses them\<close>

text \<open>
  \<^verbatim>\<open>int(s)\<close> and \<^verbatim>\<open>float(s)\<close> raise \<^verbatim>\<open>ValueError\<close> on a string outside their grammar; the
  scripts only ask whether they raise. Both strip surrounding whitespace and allow a
  sign; a digit part is digits with single underscores between them. Only ASCII digits
  are recognised here (Python also takes other Unicode decimal digits).
\<close>

definition is_digit :: "nat \<Rightarrow> bool" where
  "is_digit c = (48 \<le> c \<and> c \<le> 57)"

fun digitpart :: "ustring \<Rightarrow> bool" where
  "digitpart [] = False"
| "digitpart [c] = is_digit c"
| "digitpart (c # d # rest) =
     (is_digit c \<and> (if d = 95 then digitpart rest else digitpart (d # rest)))"

definition strip_sign :: "ustring \<Rightarrow> ustring" where
  "strip_sign s = (case s of [] \<Rightarrow> [] | c # cs \<Rightarrow> if c = 43 \<or> c = 45 then cs else s)"

definition py_int_ok :: "ustring \<Rightarrow> bool" where
  "py_int_ok s = digitpart (strip_sign (py_strip s))"

text \<open>\<open>[digitpart] "." digitpart | digitpart ["."]\<close>\<close>

definition py_number_ok :: "ustring \<Rightarrow> bool" where
  "py_number_ok m =
     (let ip = takeWhile (\<lambda>c. c \<noteq> 46) m
      in case dropWhile (\<lambda>c. c \<noteq> 46) m of
           [] \<Rightarrow> digitpart ip
         | dot # fp \<Rightarrow>
             if fp = [] then digitpart ip else (ip = [] \<or> digitpart ip) \<and> digitpart fp)"

definition py_floatnumber_ok :: "ustring \<Rightarrow> bool" where
  "py_floatnumber_ok s =
     (let not_e = (\<lambda>c. c \<noteq> 101 \<and> c \<noteq> 69)
      in py_number_ok (takeWhile not_e s) \<and>
         (case dropWhile not_e s of
            [] \<Rightarrow> True
          | e # ex \<Rightarrow> digitpart (strip_sign ex)))"

definition py_float_ok :: "ustring \<Rightarrow> bool" where
  "py_float_ok s =
     (let u = strip_sign (py_strip s); l = py_lower u
      in l = ustr ''inf'' \<or> l = ustr ''infinity'' \<or> l = ustr ''nan'' \<or> py_floatnumber_ok u)"

text \<open>\<^verbatim>\<open>is_number\<close> of the splitting script: \<^verbatim>\<open>float(s)\<close> does not raise.\<close>

definition is_number :: "ustring \<Rightarrow> bool" where
  "is_number s = py_float_ok s"

section \<open>Tables\<close>

text \<open>
  The spreadsheet reader is outside the scripts: it hands over a grid of cells, each
  missing (\<^verbatim>\<open>NaN\<close>), a string, or a number. The scripts look at a number only through
  \<^verbatim>\<open>isinstance\<close> and \<^verbatim>\<open>str\<close>, so a number cell carries its \<^verbatim>\<open>str\<close> rendering.
\<close>

datatype cell = Missing | Text ustring | Number ustring

type_synonym row = "cell list"
type_synonym table = "row list"

definition py_str :: "cell \<Rightarrow> ustring" where
  "py_str c = (case c of Missing \<Rightarrow> ustr ''nan'' | Text s \<Rightarrow> s | Number r \<Rightarrow> r)"

definition isna :: "cell \<Rightarrow> bool" where
  "isna c = (c = Missing)"

definition dropna :: "row \<Rightarrow> row" where
  "dropna r = filter (\<lambda>c. \<not> isna c) r"

definition is_str :: "cell \<Rightarrow> bool" where
  "is_str c = (case c of Text s \<Rightarrow> True | _ \<Rightarrow> False)"

section \<open>HeaderLocator\<close>

text \<open>
  \<^verbatim>\<open>is_header_row\<close> and \<^verbatim>\<open>find_header_row\<close> of the two \<^verbatim>\<open>extact2\<close> scripts (the same text
  in both). \<^verbatim>\<open>string_ratio\<close> is a quotient of two counts of cells of one row; the float
  quotient of two such small integers lies on the same side of \<open>0.5\<close> as the exact one,
  so it is taken in the reals.
\<close>

definition is_header_row :: "table \<Rightarrow> nat \<Rightarrow> bool" where
  "is_header_row df_slice row_index =
     (if int row_index \<ge> int (length df_slice) - 1 then False
      else
        let current_row = df_slice ! row_index;
            next_row = df_slice ! (row_index + 1);
            non_empty_cells = dropna current_row
        in if length non_empty_cells = 0 then False
           else
             let string_cells = length (filter is_str non_empty_cells);
                 string_ratio = real string_cells / real (length non_empty_cells);
                 has_next_row_data = (length (dropna next_row) > 0)
             in string_ratio > 0.5 \<and> has_next_row_data)"

text \<open>\<^verbatim>\<open>for i in candidates: if p(i): return i\<close>, then \<^verbatim>\<open>return 0\<close>.\<close>

fun scan_rows :: "(nat \<Rightarrow> bool) \<Rightarrow> nat list \<Rightarrow> nat" where
  "scan_rows p [] = 0"
| "scan_rows p (i # rest) = (if p i then i else scan_rows p rest)"

definition find_header_row :: "table \<Rightarrow> nat" where
  "find_header_row df =
     (let check_rows = min 10 (length df)
      in scan_rows (is_header_row (take check_rows df)) [0..<check_rows - 1])"

text \<open>
  The \<^verbatim>\<open>extract1\<close> script has its own version: a cell that is not a string still counts
  as one when its stripped \<^verbatim>\<open>str\<close> is non-empty and does not match
  \<^verbatim>\<open>^-?\d+\.?\d*$\<close>, and the candidates are \<^verbatim>\<open>range(min(10, len(df) - 1))\<close> over the whole
  table.
\<close>

definition looks_numeric :: "ustring \<Rightarrow> bool" where
  "looks_numeric s =
     (let s1 = (case s of [] \<Rightarrow> [] | c # cs \<Rightarrow> if c = 45 then cs else s)
      in takeWhile is_digit s1 \<noteq> [] \<and>
         (case dropWhile is_digit s1 of
            [] \<Rightarrow> True
          | c # cs \<Rightarrow> c = 46 \<and> list_all is_digit cs))"

definition counts_as_string1 :: "cell \<Rightarrow> bool" where
  "counts_as_string1 c =
     (case c of
        Missing \<Rightarrow> False
      | Text s \<Rightarrow> True
      | Number r \<Rightarrow> (let str_value = py_strip r in str_value \<noteq> [] \<and> \<not> looks_numeric str_value))"

definition is_header_row1 :: "table \<Rightarrow> nat \<Rightarrow> bool" where
  "is_header_row1 df row_index =
     (if int row_index \<ge> int (length df) - 1 then False
      else
        let current_row = df ! row_index;
            next_row = df ! (row_index + 1)
        in if length (dropna current_row) = 0 then False
           else
             let total_non_empty = length (dropna current_row);
                 string_cells = length (filter counts_as_string1 (dropna current_row))
             in if total_non_empty = 0 then False
                else
                  let string_ratio = real string_cells / real total_non_empty;
                      next_row_has_content = (length (dropna next_row) > 0)
                  in string_ratio > 0.5 \<and> next_row_has_content)"

definition find_header_row1 :: "table \<Rightarrow> nat" where
  "find_header_row1 df = scan_rows (is_header_row1 df) [0..<min 10 (length df - 1)]"

text \<open>
  The header condition in the words of the specification, on the table itself:
  row \<open>i\<close> has a non-missing cell, more than half of its non-missing cells are strings,
  and row \<open>i + 1\<close> has a non-missing cell. \<open>header_like1\<close> counts strings as the
  \<^verbatim>\<open>extract1\<close> script does.
\<close>

definition header_like :: "table \<Rightarrow> nat \<Rightarrow> bool" where
  "header_like df i =
     (dropna (df ! i) \<noteq> [] \<and>
      2 * length (filter is_str (dropna (df ! i))) > length (dropna (df ! i)) \<and>
      dropna (df ! (i + 1)) \<noteq> [])"

definition header_like1 :: "table \<Rightarrow> nat \<Rightarrow> bool" where
  "header_like1 df i =
     (dropna (df ! i) \<noteq> [] \<and>
      2 * length (filter counts_as_string1 (dropna (df ! i))) > length (dropna (df ! i)) \<and>
      dropna (df ! (i + 1)) \<noteq> [])"

section \<open>Column names and the column classifier\<close>

text \<open>Decimal rendering of an index, for \<^verbatim>\<open>f"Column_{idx}"\<close>.\<close>

fun str_nat :: "nat \<Rightarrow> ustring" where
  "str_nat n = (if n < 10 then [48 + n] else str_nat (n div 10) @ [48 + n mod 10])"

declare str_nat.simps [simp del]

text \<open>\<^verbatim>\<open>process_header\<close> of the two \<^verbatim>\<open>extact2\<close> scripts.\<close>

definition column_name_at :: "row \<Rightarrow> nat \<Rightarrow> cell \<Rightarrow> ustring" where
  "column_name_at first_data_row idx header_cell =
     (if isna header_cell \<or> header_cell = Text [] then
        (if idx < length first_data_row \<and> \<not> isna (first_data_row ! idx)
         then py_str (first_data_row ! idx)
         else ustr ''Column_'' @ str_nat idx)
      else py_str header_cell)"

definition process_header :: "row \<Rightarrow> row \<Rightarrow> ustring list" where
  "process_header header_row first_data_row =
     map (\<lambda>(idx, header_cell). column_name_at first_data_row idx header_cell)
       (enumerate 0 header_row)"

text \<open>\<^verbatim>\<open>re.search('[U+4E00-U+9FFF]', text)\<close>.\<close>

definition contains_chinese :: "ustring \<Rightarrow> bool" where
  "contains_chinese s = list_ex (\<lambda>c. 0x4E00 \<le> c \<and> c \<le> 0x9FFF) s"

text \<open>
  \<^verbatim>\<open>keyword.lower() in column_name_str.lower()\<close> for some keyword of the list, in list
  order.
\<close>

definition keyword_hit :: "ustring list \<Rightarrow> ustring \<Rightarrow> bool" where
  "keyword_hit keywords column_name =
     list_ex (\<lambda>keyword. py_in (py_lower keyword) (py_lower column_name)) keywords"

text \<open>
  \<^verbatim>\<open>should_skip_column\<close>. The argument is \<open>None\<close> where \<^verbatim>\<open>pd.isna(column_name)\<close> holds.
  In the splitting script:
  \<^verbatim>\<open>
  if pd.isna(column_name) or column_name == '':
      return False
  column_name_str = str(column_name)
  for keyword in self.keywords:
      if keyword.lower() in column_name_str.lower():
          return True
  return False
  \<close>
  The harvesting script adds, before the last line,
  \<^verbatim>\<open>if not self.contains_chinese(column_name_str): return True\<close>.
\<close>

definition should_skip_column_split :: "ustring list \<Rightarrow> ustring option \<Rightarrow> bool" where
  "should_skip_column_split keywords column_name =
     (case column_name of
        None \<Rightarrow> False
      | Some n \<Rightarrow>
          if n = [] then False
          else if keyword_hit keywords n then True
          else False)"

definition should_skip_column :: "ustring list \<Rightarrow> ustring option \<Rightarrow> bool" where
  "should_skip_column keywords column_name =
     (case column_name of
        None \<Rightarrow> False
      | Some n \<Rightarrow>
          if n = [] then False
          else if keyword_hit keywords n then True
          else if \<not> contains_chinese n then True
          else False)"

text \<open>\<^verbatim>\<open>is_in_white_list\<close>, the same in both \<^verbatim>\<open>extact2\<close> scripts.\<close>

definition is_in_white_list :: "ustring list \<Rightarrow> ustring option \<Rightarrow> bool" where
  "is_in_white_list white_list_keywords column_name =
     (case column_name of
        None \<Rightarrow> False
      | Some n \<Rightarrow> if n = [] then False else keyword_hit white_list_keywords n)"

text \<open>The keyword lists \<^verbatim>\<open>main\<close> of the harvesting script configures.\<close>

definition skip_keywords :: "ustring list" where
  "skip_keywords =
     [ustr ''Description'', [0x63CF, 0x8FF0], ustr ''NO'', ustr ''S/N'', ustr ''UNIT'',
      ustr ''QTY'', ustr ''UoM'', ustr ''ITEM'']"

definition white_list_keywords :: "ustring list" where
  "white_list_keywords =
     [[0x5DE5, 0x827A], [0x5916, 0x5F84], [0x58C1, 0x539A], material_col, standard_col,
      [0x538B, 0x529B], [0x5C3A, 0x5BF8], name_col, [0x8FDE, 0x63A5, 0x9762]]"

section \<open>KnowledgeBase and ValueHarvester\<close>

text \<open>
  \<^verbatim>\<open>self.all_data\<close> of the harvesting script: a dictionary from column names to sets of
  strings.
\<close>

type_synonym kbase = "ustring \<rightharpoonup> ustring set"

definition kb_values :: "kbase \<Rightarrow> ustring \<Rightarrow> ustring set" where
  "kb_values all_data c = (case all_data c of None \<Rightarrow> {} | Some vs \<Rightarrow> vs)"

text \<open>
  One cell of a column, lines 212 to 230. A number is passed over; so is a string that
  \<^verbatim>\<open>float\<close> (when it has a dot) or \<^verbatim>\<open>int\<close> (when it has none) parses; any other string is
  stripped and kept unless it has a Chinese character or is a lone dash.
  The result \<open>None\<close> is \<^verbatim>\<open>continue\<close>.
\<close>

definition clean_item :: "cell \<Rightarrow> ustring option" where
  "clean_item c =
     (case c of
        Missing \<Rightarrow> None
      | Number r \<Rightarrow> None
      | Text s \<Rightarrow>
          if (if 46 \<in> set s then py_float_ok s else py_int_ok s) then None
          else
            let item = py_strip s
            in if contains_chinese item then None
               else if item = ustr ''-'' then None
               else Some item)"

text \<open>\<^verbatim>\<open>for item in column_data\<close>: the strings that are kept, in the order of the column.\<close>

fun clean_column :: "cell list \<Rightarrow> ustring list" where
  "clean_column [] = []"
| "clean_column (c # cs) =
     (case clean_item c of
        None \<Rightarrow> clean_column cs
      | Some item \<Rightarrow> item # clean_column cs)"

text \<open>
  Lines 232 to 243. \<open>processed_data\<close> is a set in the script; the list here holds its
  elements, in any order and with repetitions, which the operations below do not see.
  \<^verbatim>\<open>
  if col_name not in self.all_data:
      self.all_data[col_name] = set()
  if col_name == standard and self.all_data[standard] is not None:
      for item in processed_data.copy():
          for item2 in self.all_data[standard]:
              if item2 in item:
                  processed_data.remove(item)
                  break
  self.all_data[col_name].update(processed_data)
  \<close>
\<close>

definition merge_column :: "ustring \<Rightarrow> ustring list \<Rightarrow> kbase \<Rightarrow> kbase" where
  "merge_column col_name processed_data all_data =
     (let existing = kb_values all_data col_name;
          kept = (if col_name = standard_col
                  then filter (\<lambda>item. \<not> (\<exists>item2 \<in> existing. py_in item2 item)) processed_data
                  else processed_data)
      in all_data(col_name \<mapsto> existing \<union> set kept))"

text \<open>A data frame is empty when it has no row or no column.\<close>

definition ncols :: "table \<Rightarrow> nat" where
  "ncols df = (case df of [] \<Rightarrow> 0 | r # rs \<Rightarrow> length r)"

definition df_empty :: "table \<Rightarrow> bool" where
  "df_empty df = (df = [] \<or> ncols df = 0)"

definition cell_at :: "row \<Rightarrow> nat \<Rightarrow> cell" where
  "cell_at r i = (if i < length r then r ! i else Missing)"

text \<open>One column of the table, lines 199 to 243.\<close>

definition harvest_column ::
  "ustring list \<Rightarrow> ustring list \<Rightarrow> table \<Rightarrow> nat \<times> ustring \<Rightarrow> kbase \<Rightarrow> kbase" where
  "harvest_column keywords white_list data_df col all_data =
     (let col_idx = fst col; col_name = snd col
      in if col_idx \<ge> ncols data_df then all_data
         else if should_skip_column keywords (Some col_name) then all_data
         else if \<not> is_in_white_list white_list (Some col_name) then all_data
         else
           let column_data = dropna (map (\<lambda>r. cell_at r col_idx) data_df);
               processed_data = clean_column column_data
           in merge_column col_name processed_data all_data)"

fun columns_loop_harvest ::
  "ustring list \<Rightarrow> ustring list \<Rightarrow> table \<Rightarrow> (nat \<times> ustring) list \<Rightarrow> kbase \<Rightarrow> kbase" where
  "columns_loop_harvest keywords white_list data_df [] all_data = all_data"
| "columns_loop_harvest keywords white_list data_df (col # rest) all_data =
     columns_loop_harvest keywords white_list data_df rest
       (harvest_column keywords white_list data_df col all_data)"

text \<open>
  \<^verbatim>\<open>process_excel_file\<close>, lines 164 to 246. A file is the list of what the reader returns
  for each of its sheets, in order: a table, or \<open>None\<close> when the read raises. An
  exception ends the function (the \<^verbatim>\<open>except\<close> clause around the whole loop only prints);
  so does each \<^verbatim>\<open>return\<close>. The data of every round are read with \<^verbatim>\<open>sheet_name=0\<close>, and
  reading with \<^verbatim>\<open>skiprows=n\<close> gives the sheet without its first \<open>n\<close> rows:
  \<^verbatim>\<open>
  for i in range(num_sheets):
      df = pd.read_excel(file_path, sheet_name=i, header=None)
      if df.empty: return
      header_row_index = self.find_header_row(df)
      header_row = df.iloc[header_row_index]
      data_start_row = header_row_index + 1
      if data_start_row >= len(df): return
      first_data_row = df.iloc[data_start_row]
      column_names = self.process_header(header_row, first_data_row)
      data_df = pd.read_excel(file_path, sheet_name=0, header=None, skiprows=data_start_row)
      for col_idx, col_name in enumerate(column_names): ...
  \<close>
\<close>

fun sheets_loop ::
  "ustring list \<Rightarrow> ustring list \<Rightarrow> table option \<Rightarrow> table option list \<Rightarrow> kbase \<Rightarrow> kbase" where
  "sheets_loop keywords white_list sheet0 [] all_data = all_data"
| "sheets_loop keywords white_list sheet0 (sheet # rest) all_data =
     (case sheet of
        None \<Rightarrow> all_data
      | Some df \<Rightarrow>
          if df_empty df then all_data
          else
            let header_row_index = find_header_row df;
                data_start_row = header_row_index + 1
            in if data_start_row \<ge> length df then all_data
               else
                 let column_names = process_header (df ! header_row_index) (df ! data_start_row)
                 in case sheet0 of
                      None \<Rightarrow> all_data
                    | Some df0 \<Rightarrow>
                        sheets_loop keywords white_list sheet0 rest
                          (columns_loop_harvest keywords white_list (drop data_start_row df0)
                             (enumerate 0 column_names) all_data))"

definition process_excel_file ::
  "ustring list \<Rightarrow> ustring list \<Rightarrow> table option list \<Rightarrow> kbase \<Rightarrow> kbase" where
  "process_excel_file keywords white_list file all_data =
     sheets_loop keywords white_list (case file of [] \<Rightarrow> None | s # rest \<Rightarrow> s) file all_data"

text \<open>
  The end of \<^verbatim>\<open>process_folder\<close>, lines 281 to 283: every set becomes its sorted list, and
  the columns whose list is empty are dropped.
\<close>

definition finalize :: "kbase \<Rightarrow> (ustring \<rightharpoonup> ustring list)" where
  "finalize all_data =
     (\<lambda>c. case all_data c of
             None \<Rightarrow> None
           | Some vs \<Rightarrow> if sorted_list_of_set vs = [] then None else Some (sorted_list_of_set vs))"

text \<open>
  Two notions for the proofs about repeated harvesting. One knowledge base is below
  another when each of its columns is a column of the other with at least its values;
  a function on knowledge bases settles when it only adds, and changes nothing any more
  on a knowledge base that is above one of its results.
\<close>

definition kb_le :: "kbase \<Rightarrow> kbase \<Rightarrow> bool" where
  "kb_le a b =
     (\<forall>c. case a c of
             None \<Rightarrow> True
           | Some vs \<Rightarrow> (case b c of None \<Rightarrow> False | Some vs' \<Rightarrow> vs \<subseteq> vs'))"

definition settles :: "(kbase \<Rightarrow> kbase) \<Rightarrow> bool" where
  "settles f = (\<forall>kb. kb_le kb (f kb) \<and> (\<forall>kb'. kb_le (f kb) kb' \<longrightarrow> f kb' = kb'))"

section \<open>RecordDecomposer: classifying the tokens of a cell\<close>

text \<open>
  The knowledge base the splitting script loads from \<^verbatim>\<open>extracted_columns.json\<close> is a
  dictionary from column names to lists of values; \<^verbatim>\<open>.items()\<close> walks it in file order,
  so it is a list of pairs here. \<^verbatim>\<open>row_data\<close> is a dictionary from field names to strings.
\<close>

type_synonym knowledge = "(ustring \<times> ustring list) list"
type_synonym record_fields = "ustring \<rightharpoonup> ustring"

text \<open>
  The fuzzy matcher is the library \<^verbatim>\<open>thefuzz\<close>, which is not part of the repository. The
  model takes the scorer as a parameter \<open>scorer\<close>: the similarity of two strings on the
  scale from 0 to 100, not rounded (the script passes \<^verbatim>\<open>fuzz.token_sort_ratio\<close>). It
  writes out the one call the script makes,
  \<^verbatim>\<open>process.extractBests(query, choices, scorer=..., score_cutoff=80, limit=1)\<close>, as the
  library runs it: the cutoff is applied to the similarity before rounding, the choices
  that reach it are ordered best first and cut to the limit of one, and the score that
  is returned is the similarity rounded to an integer (\<^verbatim>\<open>int(round(score))\<close>, which rounds
  a half to the even neighbour). A similarity of 79.6 is below the cutoff although it
  rounds to 80.
\<close>

definition py_round :: "real \<Rightarrow> int" where
  "py_round x =
     (let f = \<lfloor>x\<rfloor>; d = x - of_int f
      in if d < 1 / 2 then f
         else if d > 1 / 2 then f + 1
         else if even f then f else f + 1)"

definition extractBests ::
  "(ustring \<Rightarrow> ustring \<Rightarrow> real) \<Rightarrow> ustring \<Rightarrow> ustring list \<Rightarrow> real \<Rightarrow> (ustring \<times> int) list" where
  "extractBests scorer query choices score_cutoff =
     (case filter (\<lambda>p. snd p \<ge> score_cutoff) (map (\<lambda>c. (c, scorer query c)) choices) of
        [] \<Rightarrow> []
      | p # ps \<Rightarrow>
          (let best = fold (\<lambda>q best. if snd q > snd best then q else best) ps p
           in [(fst best, py_round (snd best))]))"

record tstate =
  row_data :: record_fields
  best_match_score :: int
  is_match :: bool

text \<open>
  \<^verbatim>\<open>row_data[c] = split_value if row_data.get(c) == "" else f"{row_data.get(c)},{split_value}"\<close>.
  \<^verbatim>\<open>get\<close> gives \<^verbatim>\<open>None\<close> for an absent key, which the f-string renders as \<^verbatim>\<open>None\<close>.
\<close>

definition append_field :: "record_fields \<Rightarrow> ustring \<Rightarrow> ustring \<Rightarrow> record_fields" where
  "append_field rd c split_value =
     rd(c \<mapsto> (case rd c of
                 None \<Rightarrow> ustr ''None'' @ [comma] @ split_value
               | Some cur \<Rightarrow> if cur = [] then split_value else cur @ [comma] @ split_value))"

text \<open>
  The name column, lines 286 to 289:
  \<^verbatim>\<open>
  for map_value in map_values:
      if map_value.lower() in split_value.lower():
          row_data[map_col_name] = map_value if row_data.get(map_col_name) == "" \
              or len(map_value) >= len(row_data.get(map_col_name)) else row_data.get(map_col_name)
  \<close>
  \<^verbatim>\<open>len(None)\<close> raises \<^verbatim>\<open>TypeError\<close>, which nothing catches: the result \<open>None\<close>.
\<close>

fun name_candidates :: "ustring \<Rightarrow> ustring list \<Rightarrow> record_fields \<Rightarrow> record_fields option" where
  "name_candidates split_value [] rd = Some rd"
| "name_candidates split_value (map_value # rest) rd =
     (if py_in (py_lower map_value) (py_lower split_value) then
        (case rd name_col of
           None \<Rightarrow> None
         | Some cur \<Rightarrow>
             name_candidates split_value rest
               (rd(name_col \<mapsto> (if cur = [] \<or> length map_value \<ge> length cur then map_value else cur))))
      else name_candidates split_value rest rd)"

text \<open>
  The standard and the material column, lines 292 to 298: the first candidate the token
  contains marks the token matched and appends the token to the field, then \<^verbatim>\<open>break\<close>.
\<close>

fun contained_candidates :: "ustring \<Rightarrow> ustring \<Rightarrow> ustring list \<Rightarrow> tstate \<Rightarrow> tstate" where
  "contained_candidates split_value c [] st = st"
| "contained_candidates split_value c (map_value # rest) st =
     (if py_in (py_lower map_value) (py_lower split_value) then
        st\<lparr>is_match := True, row_data := append_field (row_data st) c split_value\<rparr>
      else contained_candidates split_value c rest st)"

text \<open>
  Every other column, the name column included, lines 300 to 306:
  \<^verbatim>\<open>
  best_match = process.extractBests(split_value, map_values,
                                    scorer=fuzz.token_sort_ratio, score_cutoff=80, limit=1)
  if len(best_match) > 0 and best_match[0][1] > best_match_score:
      is_match = True
      if map_col_name == name: row_data[map_col_name] = split_value
      else: row_data[map_col_name] = (appended as above)
  \<close>
  No line assigns \<^verbatim>\<open>best_match_score\<close> after its initialisation to 0.
\<close>

definition fuzzy_column ::
  "(ustring \<Rightarrow> ustring \<Rightarrow> real) \<Rightarrow> ustring \<Rightarrow> ustring \<Rightarrow> ustring list \<Rightarrow> tstate \<Rightarrow> tstate" where
  "fuzzy_column scorer split_value c map_values st =
     (let best_match = extractBests scorer split_value map_values 80
      in if length best_match > 0 \<and> snd (hd best_match) > best_match_score st then
           st\<lparr>is_match := True,
               row_data := (if c = name_col then (row_data st)(c \<mapsto> split_value)
                            else append_field (row_data st) c split_value)\<rparr>
         else st)"

text \<open>One round of \<^verbatim>\<open>for map_col_name, map_values in orign_map_data.items()\<close>.\<close>

definition column_step ::
  "(ustring \<Rightarrow> ustring \<Rightarrow> real) \<Rightarrow> ustring \<Rightarrow> ustring \<times> ustring list \<Rightarrow> tstate \<Rightarrow> tstate option" where
  "column_step scorer split_value col st =
     (let map_col_name = fst col; map_values = snd col
      in case (if map_col_name = name_col
               then map_option (\<lambda>rd. st\<lparr>row_data := rd\<rparr>)
                      (name_candidates split_value map_values (row_data st))
               else Some st) of
           None \<Rightarrow> None
         | Some st1 \<Rightarrow>
             if map_col_name = standard_col \<or> map_col_name = material_col then
               Some (contained_candidates split_value map_col_name map_values st1)
             else Some (fuzzy_column scorer split_value map_col_name map_values st1))"

fun columns_loop ::
  "(ustring \<Rightarrow> ustring \<Rightarrow> real) \<Rightarrow> ustring \<Rightarrow> knowledge \<Rightarrow> tstate \<Rightarrow> tstate option" where
  "columns_loop scorer split_value [] st = Some st"
| "columns_loop scorer split_value (col # rest) st =
     (case column_step scorer split_value col st of
        None \<Rightarrow> None
      | Some st1 \<Rightarrow> columns_loop scorer split_value rest st1)"

text \<open>
  One round of \<^verbatim>\<open>for split_value in split\<close>: numbers, empty tokens and a lone dash are
  passed over; a token no column matched is appended to the remark field.
\<close>

definition skipped_token :: "ustring \<Rightarrow> bool" where
  "skipped_token split_value =
     (is_number split_value \<or> split_value = [] \<or> split_value = ustr ''-'')"

definition token_step ::
  "(ustring \<Rightarrow> ustring \<Rightarrow> real) \<Rightarrow> knowledge \<Rightarrow> ustring \<Rightarrow> record_fields \<Rightarrow> record_fields option" where
  "token_step scorer orign_map_data split_value rd =
     (if skipped_token split_value then Some rd
      else
        case columns_loop scorer split_value orign_map_data
               \<lparr>row_data = rd, best_match_score = 0, is_match = False\<rparr> of
          None \<Rightarrow> None
        | Some st \<Rightarrow>
            if \<not> is_match st then Some (append_field (row_data st) remark_col split_value)
            else Some (row_data st))"

fun tokens_loop ::
  "(ustring \<Rightarrow> ustring \<Rightarrow> real) \<Rightarrow> knowledge \<Rightarrow> ustring list \<Rightarrow> record_fields \<Rightarrow> record_fields option" where
  "tokens_loop scorer orign_map_data [] rd = Some rd"
| "tokens_loop scorer orign_map_data (split_value # rest) rd =
     (case token_step scorer orign_map_data split_value rd of
        None \<Rightarrow> None
      | Some rd1 \<Rightarrow> tokens_loop scorer orign_map_data rest rd1)"

text \<open>
  The fresh record of a cell, lines 273 to 278: the description (the cell itself; a
  number is shown here by its rendering), every column of the knowledge base empty, the
  remark empty. Later keys overwrite earlier ones.
\<close>

definition initial_row :: "knowledge \<Rightarrow> cell \<Rightarrow> record_fields" where
  "initial_row orign_map_data v =
     (fold (\<lambda>key rd. rd(key \<mapsto> [])) (map fst orign_map_data)
        (Map.empty(description_col \<mapsto> py_str v)))(remark_col \<mapsto> [])"

text \<open>The record built for one cell \<^verbatim>\<open>value\<close> of a description column.\<close>

definition decompose ::
  "(ustring \<Rightarrow> ustring \<Rightarrow> real) \<Rightarrow> knowledge \<Rightarrow> cell \<Rightarrow> record_fields option" where
  "decompose scorer orign_map_data v =
     tokens_loop scorer orign_map_data (tokenize (py_str v)) (initial_row orign_map_data v)"

text \<open>
  Text of ASCII characters and CJK ideographs. On such text \<open>py_lower\<close> is Python's
  \<^verbatim>\<open>lower\<close> and \<open>is_number\<close> is exactly whether \<^verbatim>\<open>float\<close> parses; the general statements about
  the decomposer are made for it.
\<close>

definition plain_text :: "ustring \<Rightarrow> bool" where
  "plain_text s = list_all (\<lambda>c. c < 128 \<or> (0x4E00 \<le> c \<and> c \<le> 0x9FFF)) s"

definition plain_knowledge :: "knowledge \<Rightarrow> bool" where
  "plain_knowledge orign_map_data = list_all (\<lambda>col. list_all plain_text (snd col)) orign_map_data"

text \<open>
  The rules that mark a token matched, in the words of the specification: the token
  contains a candidate of the standard or material column (case-insensitively), or a
  candidate of any other column has a similarity of at least 80 (before rounding) with
  it.
\<close>

definition accepted :: "ustring \<Rightarrow> ustring \<Rightarrow> bool" where
  "accepted split_value map_value = py_in (py_lower map_value) (py_lower split_value)"

definition column_matches ::
  "(ustring \<Rightarrow> ustring \<Rightarrow> real) \<Rightarrow> ustring \<Rightarrow> ustring \<times> ustring list \<Rightarrow> bool" where
  "column_matches scorer split_value col =
     (if fst col = standard_col \<or> fst col = material_col
      then list_ex (accepted split_value) (snd col)
      else list_ex (\<lambda>map_value. scorer split_value map_value \<ge> 80) (snd col))"

definition token_matched :: "(ustring \<Rightarrow> ustring \<Rightarrow> real) \<Rightarrow> knowledge \<Rightarrow> ustring \<Rightarrow> bool" where
  "token_matched scorer orign_map_data split_value =
     list_ex (column_matches scorer split_value) orign_map_data"

section \<open>The scorer of the library, for running examples\<close>

text \<open>
  \<^verbatim>\<open>fuzz.token_sort_ratio\<close> as \<^verbatim>\<open>thefuzz\<close> documents it, on ASCII letters, digits and
  spaces: both strings are lower-cased, every character that is not a letter or digit
  becomes a space, the words are sorted and joined by single spaces, and the similarity
  is \<open>200 * lcs / (length a + length b)\<close>, where \<open>lcs\<close> is the length of a longest common
  subsequence. It is used only to run the script on concrete cells; every general
  statement below holds for any scorer.
\<close>

definition is_alnum :: "nat \<Rightarrow> bool" where
  "is_alnum c = (is_digit c \<or> (65 \<le> c \<and> c \<le> 90) \<or> (97 \<le> c \<and> c \<le> 122))"

definition full_process :: "ustring \<Rightarrow> ustring" where
  "full_process s = py_strip (map (\<lambda>c. if is_alnum c then lower_cp c else 32) s)"

text \<open>\<^verbatim>\<open>s.split()\<close>: the maximal runs of characters that are not whitespace.\<close>

fun words_acc :: "ustring \<Rightarrow> ustring \<Rightarrow> ustring list" where
  "words_acc w [] = (if w = [] then [] else [w])"
| "words_acc w (c # cs) =
     (if py_isspace c then (if w = [] then words_acc [] cs else w # words_acc [] cs)
      else words_acc (w @ [c]) cs)"

fun join_words :: "ustring list \<Rightarrow> ustring" where
  "join_words [] = []"
| "join_words [w] = w"
| "join_words (w # v # rest) = w @ [32] @ join_words (v # rest)"

definition sort_tokens :: "ustring \<Rightarrow> ustring" where
  "sort_tokens s = join_words (sort (words_acc [] s))"

text \<open>
  One row of the table of longest common subsequences: \<open>prev\<close> is the row above,
  \<open>left\<close> the entry just computed.
\<close>

fun lcs_row :: "'a \<Rightarrow> 'a list \<Rightarrow> nat list \<Rightarrow> nat \<Rightarrow> nat list" where
  "lcs_row x [] prev left = []"
| "lcs_row x (y # ys) prev left =
     (case prev of
        d # u # rest \<Rightarrow>
          (let v = (if x = y then d + 1 else max u left) in v # lcs_row x ys (u # rest) v)
      | _ \<Rightarrow> [])"

definition lcs_length :: "'a list \<Rightarrow> 'a list \<Rightarrow> nat" where
  "lcs_length xs ys =
     last (fold (\<lambda>x prev. 0 # lcs_row x ys prev 0) xs (replicate (length ys + 1) 0))"

definition ratio :: "ustring \<Rightarrow> ustring \<Rightarrow> real" where
  "ratio a b =
     (let total = length a + length b
      in if total = 0 then 0 else 200 * real (lcs_length a b) / real total)"

definition token_sort_ratio :: "ustring \<Rightarrow> ustring \<Rightarrow> real" where
  "token_sort_ratio s1 s2 = ratio (sort_tokens (full_process s1)) (sort_tokens (full_process s2))"

section \<open>Example knowledge bases\<close>

text \<open>The name column with the two candidates of the specification's example.\<close>

definition kb_steel_names :: knowledge where
  "kb_steel_names = [(name_col, [ustr ''Steel'', ustr ''Stainless Steel''])]"

text \<open>The name column with one candidate.\<close>

definition kb_steel_name :: knowledge where
  "kb_steel_name = [(name_col, [ustr ''Steel''])]"

text \<open>The name column with two candidates of the same length.\<close>

definition kb_pipe_tube :: knowledge where
  "kb_pipe_tube = [(name_col, [ustr ''Pipe'', ustr ''Tube''])]"

text \<open>Two columns that are neither name, standard nor material: wall thickness, pressure.\<close>

definition kb_two_generic :: knowledge where
  "kb_two_generic =
     [([0x58C1, 0x539A], [ustr ''SCH 40'']), ([0x538B, 0x529B], [ustr ''SCH 40S''])]"

section \<open>Example tables\<close>

text \<open>
  Eleven rows: nine rows holding a number, then a row holding a string, then one more
  row of data.
\<close>

definition table_late_header :: table where
  "table_late_header =
     replicate 9 [Number (ustr ''1'')] @ [[Text (ustr ''Name'')], [Text (ustr ''pipe'')]]"

text \<open>A row of numbers, then the header, then data.\<close>

definition table_header_second :: table where
  "table_header_second =
     [[Number (ustr ''2024''), Missing],
      [Text (ustr ''Item''), Text (ustr ''Material'')],
      [Number (ustr ''1''), Text (ustr ''SS316'')]]"

text \<open>Numbers only.\<close>

definition table_numbers :: table where
  "table_numbers = [[Number (ustr ''1'')], [Number (ustr ''2'')], [Number (ustr ''3'')]]"

section \<open>Example files\<close>

text \<open>
  Two sheets: the first has the standard column with the value \<^verbatim>\<open>A312\<close>, the second the
  material column with the value \<^verbatim>\<open>SS316\<close>.
\<close>

definition file_two_sheets :: "table option list" where
  "file_two_sheets =
     [Some [[Text standard_col], [Text (ustr ''A312'')]],
      Some [[Text material_col], [Text (ustr ''SS316'')]]]"

text \<open>An empty first sheet, then the sheet with the material column.\<close>

definition file_empty_first :: "table option list" where
  "file_empty_first = [Some [], Some [[Text material_col], [Text (ustr ''SS316'')]]]"

text \<open>One sheet whose standard column holds \<^verbatim>\<open>A312\<close> and \<^verbatim>\<open>ASTM A312\<close>.\<close>

definition file_standard_batch :: "table option list" where
  "file_standard_batch =
     [Some [[Text standard_col], [Text (ustr ''A312'')], [Text (ustr ''ASTM A312'')]]]"

text \<open>One sheet whose standard column holds \<^verbatim>\<open>ASTM A312\<close>.\<close>

definition file_standard_long :: "table option list" where
  "file_standard_long = [Some [[Text standard_col], [Text (ustr ''ASTM A312'')]]]"

section \<open>Properties of the string operations\<close>

lemma py_split_nonempty: "py_split sep s \<noteq> []"
  by (induction s) (auto split: list.splits)

lemma length_py_split: "length (py_split sep s) = Suc (count_list s sep)"
proof (induction s)
  case Nil
  show ?case by simp
next
  case (Cons c cs)
  show ?case
  proof (cases "py_split sep cs")
    case Nil
    with py_split_nonempty [of sep cs] show ?thesis by simp
  next
    case (Cons p ps)
    with Cons.IH show ?thesis by auto
  qed
qed

lemma py_in_iff: "py_in xs ys \<longleftrightarrow> (\<exists>ps ss. ys = ps @ xs @ ss)"
proof (induction ys)
  case Nil
  show ?case by auto
next
  case (Cons y ys)
  have "take (length xs) (y # ys) = xs \<longleftrightarrow> (\<exists>ss. y # ys = xs @ ss)"
    by (metis append_eq_conv_conj append_take_drop_id)
  moreover have "(\<exists>ps ss. y # ys = ps @ xs @ ss)
      \<longleftrightarrow> (\<exists>ss. y # ys = xs @ ss) \<or> (\<exists>ps ss. ys = ps @ xs @ ss)"
  proof
    assume "\<exists>ps ss. y # ys = ps @ xs @ ss"
    then obtain ps ss where e: "y # ys = ps @ xs @ ss" by blast
    show "(\<exists>ss. y # ys = xs @ ss) \<or> (\<exists>ps ss. ys = ps @ xs @ ss)"
    proof (cases ps)
      case Nil
      with e show ?thesis by auto
    next
      case (Cons p ps')
      with e have "ys = ps' @ xs @ ss" by simp
      then show ?thesis by blast
    qed
  next
    assume "(\<exists>ss. y # ys = xs @ ss) \<or> (\<exists>ps ss. ys = ps @ xs @ ss)"
    then show "\<exists>ps ss. y # ys = ps @ xs @ ss"
    proof
      assume "\<exists>ss. y # ys = xs @ ss"
      then obtain ss where "y # ys = [] @ xs @ ss" by auto
      then show ?thesis by blast
    next
      assume "\<exists>ps ss. ys = ps @ xs @ ss"
      then obtain ps ss where "y # ys = (y # ps) @ xs @ ss" by auto
      then show ?thesis by blast
    qed
  qed
  ultimately show ?case using Cons.IH by simp
qed

lemma py_in_refl: "py_in xs xs"
  unfolding py_in_iff by (metis append_Nil append_Nil2)

lemma ustr_simps [simp]: "ustr [] = []" "ustr (c # cs) = of_char c # ustr cs"
  by (simp_all add: ustr_def)

section \<open>Tokenizing: which split is used\<close>

text \<open>
  C2, as the code has it. The cell text is split at commas and, independently, at
  semicolons, and the split with more pieces is used: that is the comma split exactly
  when the text has more commas than semicolons. When both splits produce the same
  number of pieces the semicolon split is used (the code keeps the comma split only on
  a strictly greater length).
\<close>

theorem choose_split_by_count:
  "choose_split v =
     (if count_list v semicolon < count_list v comma then py_split comma v
      else py_split semicolon v)
   \<and> length (choose_split v) = max (length (py_split comma v)) (length (py_split semicolon v))"
  by (simp add: choose_split_def Let_def length_py_split)

text \<open>
  The claim as stated (on a tie the comma split is used) fails on \<^verbatim>\<open>"a,b;c"\<close>: both splits
  have two pieces, and the pieces used are \<^verbatim>\<open>"a,b"\<close> and \<^verbatim>\<open>"c"\<close>.
\<close>

theorem choose_split_tie_counterexample:
  "length (py_split comma (ustr ''a,b;c'')) = length (py_split semicolon (ustr ''a,b;c''))
   \<and> choose_split (ustr ''a,b;c'') \<noteq> py_split comma (ustr ''a,b;c'')
   \<and> tokenize (ustr ''a,b;c'') = [ustr ''a,b'', ustr ''c'']"
  by (simp add: tokenize_def choose_split_def comma_def semicolon_def py_strip_def
      py_isspace_def replace_newlines_def)

section \<open>The column classifier on blank names\<close>

text \<open>
  C9, as the code has it. \<^verbatim>\<open>should_skip_column\<close> returns false for a missing and for an
  empty column name, in both scripts; for any other name it returns true exactly when
  the lower-cased name contains a lower-cased skip keyword or, in the harvesting script,
  the name has no Chinese character.
\<close>

theorem should_skip_column_blank:
  "should_skip_column keywords None = False
   \<and> should_skip_column_split keywords None = False
   \<and> should_skip_column keywords (Some []) = False
   \<and> should_skip_column_split keywords (Some []) = False
   \<and> should_skip_column keywords (Some n) =
        (n \<noteq> [] \<and> (keyword_hit keywords n \<or> (contains_chinese n = False)))
   \<and> should_skip_column_split keywords (Some n) = (n \<noteq> [] \<and> keyword_hit keywords n)"
  by (auto simp add: should_skip_column_def should_skip_column_split_def)

text \<open>
  The claim as stated (every blank name is skipped) fails on the empty name and on the
  missing name, with the skip keywords the harvesting script configures.
\<close>

theorem should_skip_column_blank_counterexample:
  "should_skip_column skip_keywords (Some []) = False
   \<and> should_skip_column skip_keywords None = False
   \<and> should_skip_column_split skip_keywords (Some []) = False
   \<and> should_skip_column_split skip_keywords None = False"
  by (simp add: should_skip_column_def should_skip_column_split_def)

section \<open>HeaderLocator returns the first header-like candidate\<close>

lemma scan_rows_none: "\<forall>j \<in> set cs. \<not> p j \<Longrightarrow> scan_rows p cs = 0"
  by (induction cs) auto

lemma scan_rows_skip: "\<forall>j \<in> set xs. \<not> p j \<Longrightarrow> scan_rows p (xs @ ys) = scan_rows p ys"
  by (induction xs) auto

lemma scan_rows_cong: "\<forall>i \<in> set cs. p i = q i \<Longrightarrow> scan_rows p cs = scan_rows q cs"
  by (induction cs) auto

lemma scan_rows_upt_first:
  assumes "i < n" and "p i" and "\<forall>j<i. \<not> p j"
  shows "scan_rows p [0..<n] = i"
proof -
  have "[0..<n] = [0..<i] @ i # [Suc i..<n]"
    using assms(1)
    by (metis less_imp_le_nat upt_add_eq_append upt_conv_Cons le_add_diff_inverse zero_le)
  moreover have "\<forall>j \<in> set [0..<i]. \<not> p j"
    using assms(3) by simp
  ultimately show ?thesis
    using assms(2) by (simp add: scan_rows_skip)
qed

lemma ratio_half: "n > 0 \<Longrightarrow> (real s / real n > 0.5) = (2 * s > n)"
  using of_nat_less_iff [of n "s * 2", where 'a = real] by (simp add: field_simps)

lemma is_header_row_take:
  assumes "i < min 10 (length df) - 1"
  shows "is_header_row (take (min 10 (length df)) df) i = header_like df i"
proof -
  let ?w = "min 10 (length df)"
  have l: "length (take ?w df) = ?w"
    by simp
  have i1: "i < ?w" and i2: "i + 1 < ?w"
    using assms by auto
  have r1: "take ?w df ! i = df ! i"
    using i1 by simp
  have r2: "take ?w df ! (i + 1) = df ! (i + 1)"
    using i2 by simp
  have g: "\<not> int i \<ge> int (length (take ?w df)) - 1"
    using i2 unfolding l by linarith
  show ?thesis
    unfolding is_header_row_def header_like_def Let_def
    using g r1 r2 by (auto simp add: ratio_half simp del: length_take)
qed

lemma is_header_row1_eq:
  assumes "i < min 10 (length df - 1)"
  shows "is_header_row1 df i = header_like1 df i"
proof -
  have g: "\<not> int i \<ge> int (length df) - 1"
    using assms by auto
  show ?thesis
    unfolding is_header_row1_def header_like1_def Let_def
    using g by (auto simp add: ratio_half)
qed

lemma find_header_row_eq:
  "find_header_row df = scan_rows (header_like df) [0..<min 10 (length df) - 1]"
  unfolding find_header_row_def Let_def
  by (rule scan_rows_cong) (simp add: is_header_row_take)

lemma find_header_row1_eq:
  "find_header_row1 df = scan_rows (header_like1 df) [0..<min 10 (length df - 1)]"
  unfolding find_header_row1_def
  by (rule scan_rows_cong) (simp add: is_header_row1_eq)

text \<open>
  C6, as the code has it. Both versions return the first header-like candidate row and
  return 0 when no candidate is header-like. In the two \<^verbatim>\<open>extact2\<close> scripts the
  candidates are the rows \<open>i < min 10 (length df) - 1\<close>: the first ten rows but the last
  of them. In the \<^verbatim>\<open>extract1\<close> script they are the rows \<open>i < min 10 (length df - 1)\<close>:
  row 9 is a candidate too when the table has an eleventh row, and a number whose
  rendering does not look numeric counts as a string.
\<close>

theorem find_header_row_first_header_like:
  "(i < min 10 (length df) - 1 \<and> header_like df i \<and> (\<forall>j<i. \<not> header_like df j)
      \<longrightarrow> find_header_row df = i)
   \<and> ((\<forall>j < min 10 (length df) - 1. \<not> header_like df j) \<longrightarrow> find_header_row df = 0)
   \<and> (i < min 10 (length df - 1) \<and> header_like1 df i \<and> (\<forall>j<i. \<not> header_like1 df j)
      \<longrightarrow> find_header_row1 df = i)
   \<and> ((\<forall>j < min 10 (length df - 1). \<not> header_like1 df j) \<longrightarrow> find_header_row1 df = 0)"
proof (intro conjI impI)
  assume "i < min 10 (length df) - 1 \<and> header_like df i \<and> (\<forall>j<i. \<not> header_like df j)"
  then have "scan_rows (header_like df) [0..<min 10 (length df) - 1] = i"
    by (intro scan_rows_upt_first) simp_all
  then show "find_header_row df = i"
    by (simp add: find_header_row_eq)
next
  assume "\<forall>j < min 10 (length df) - 1. \<not> header_like df j"
  then have "scan_rows (header_like df) [0..<min 10 (length df) - 1] = 0"
    by (intro scan_rows_none) simp
  then show "find_header_row df = 0"
    by (simp add: find_header_row_eq)
next
  assume "i < min 10 (length df - 1) \<and> header_like1 df i \<and> (\<forall>j<i. \<not> header_like1 df j)"
  then have "scan_rows (header_like1 df) [0..<min 10 (length df - 1)] = i"
    by (intro scan_rows_upt_first) simp_all
  then show "find_header_row1 df = i"
    by (simp add: find_header_row1_eq)
next
  assume "\<forall>j < min 10 (length df - 1). \<not> header_like1 df j"
  then have "scan_rows (header_like1 df) [0..<min 10 (length df - 1)] = 0"
    by (intro scan_rows_none) simp
  then show "find_header_row1 df = 0"
    by (simp add: find_header_row1_eq)
qed

lemma header_like_late: "header_like1 table_late_header 9"
  by (simp add: table_late_header_def header_like1_def dropna_def isna_def
      counts_as_string1_def nth_append)

lemma not_header_like_late: "j < 9 \<Longrightarrow> \<not> header_like1 table_late_header j"
  by (simp add: table_late_header_def header_like1_def dropna_def isna_def
      counts_as_string1_def looks_numeric_def is_digit_def py_strip_def py_isspace_def
      nth_append)

lemma header_like_second:
  "header_like table_header_second 1 \<and> \<not> header_like table_header_second 0"
  by (simp add: table_header_second_def header_like_def dropna_def isna_def is_str_def)

lemma not_header_like_numbers:
  assumes "j < 2"
  shows "\<not> header_like table_numbers j \<and> \<not> header_like1 table_numbers j"
proof -
  have "j = 0 \<or> j = 1"
    using assms by arith
  then show ?thesis
    by (auto simp add: table_numbers_def header_like_def header_like1_def dropna_def isna_def
        is_str_def counts_as_string1_def looks_numeric_def is_digit_def py_strip_def
        py_isspace_def)
qed

text \<open>
  The theorem at concrete tables: the header in the second row is found by the
  \<^verbatim>\<open>extact2\<close> version, a table of numbers gives 0 in both versions, and the
  \<^verbatim>\<open>extract1\<close> version finds a header in row 9 of the eleven-row table.
\<close>

theorem find_header_row_first_header_like_witness:
  "find_header_row table_header_second = 1
   \<and> find_header_row table_numbers = 0
   \<and> find_header_row1 table_late_header = 9
   \<and> find_header_row1 table_numbers = 0"
proof -
  have a: "find_header_row table_header_second = 1"
    using find_header_row_first_header_like [of 1 table_header_second] header_like_second
    by (simp add: table_header_second_def)
  have b: "find_header_row table_numbers = 0 \<and> find_header_row1 table_numbers = 0"
    using find_header_row_first_header_like [of 0 table_numbers] not_header_like_numbers
    by (simp add: table_numbers_def)
  have c: "find_header_row1 table_late_header = 9"
    using find_header_row_first_header_like [of 9 table_late_header]
      header_like_late not_header_like_late
    by (simp add: table_late_header_def)
  show ?thesis
    using a b c by simp
qed

text \<open>
  The claim as stated (candidates are the first ten rows but the last of them, and 0
  is returned when none of them qualifies) fails for the \<^verbatim>\<open>extract1\<close> version on the
  eleven-row table: none of the rows 0 to 8 is header-like, and row 9 is returned.
\<close>

theorem find_header_row1_window_counterexample:
  "list_all (\<lambda>j. \<not> header_like1 table_late_header j)
     [0..<min 10 (length table_late_header) - 1]
   \<and> find_header_row1 table_late_header = 9
   \<and> find_header_row table_late_header = 0"
proof -
  have w: "min 10 (length table_late_header) - 1 = 9"
    by (simp add: table_late_header_def)
  have a: "list_all (\<lambda>j. \<not> header_like1 table_late_header j) [0..<9]"
    by (simp add: list_all_iff not_header_like_late)
  have b: "find_header_row1 table_late_header = 9"
    using scan_rows_upt_first [of 9 10 "header_like1 table_late_header"]
      header_like_late not_header_like_late
    by (simp add: find_header_row1_eq table_late_header_def)
  have "\<forall>j<9. \<not> header_like table_late_header j"
    by (simp add: table_late_header_def header_like_def dropna_def isna_def is_str_def
        nth_append)
  then have c: "find_header_row table_late_header = 0"
    by (simp add: find_header_row_eq w scan_rows_none)
  show ?thesis
    using a b c w by simp
qed

section \<open>RecordDecomposer: what the column loop does to a token\<close>

lemmas str_defs = py_lower_def lower_cp_def py_strip_def py_isspace_def replace_newlines_def
  comma_def semicolon_def is_digit_def strip_sign_def

lemmas fuzz_defs = token_sort_ratio_def ratio_def lcs_length_def sort_tokens_def
  full_process_def is_alnum_def

lemmas num_defs = is_number_def py_float_ok_def py_floatnumber_ok_def py_number_ok_def
  py_int_ok_def

lemmas col_defs = name_col_def standard_col_def material_col_def remark_col_def
  description_col_def

lemmas dec_defs = decompose_def tokenize_def choose_split_def initial_row_def token_step_def
  skipped_token_def column_step_def fuzzy_column_def extractBests_def append_field_def
  py_str_def Let_def

lemma designated_distinct: "name_col \<noteq> standard_col" "name_col \<noteq> material_col"
  by (simp_all add: name_col_def standard_col_def material_col_def)

lemma fold_pick_mem:
  "fold (\<lambda>q best. if snd q > snd best then q else best) ps (p :: 'a \<times> real) \<in> set (p # ps)"
proof (induction ps arbitrary: p)
  case Nil
  show ?case by simp
next
  case (Cons q ps)
  show ?case
    using Cons.IH [of q] Cons.IH [of p] by auto
qed

text \<open>
  With \<^verbatim>\<open>best_match_score\<close> at 0 the test on the result of \<^verbatim>\<open>extractBests\<close> asks whether
  some candidate reaches the cutoff.
\<close>

lemma py_round_floor: "\<lfloor>x\<rfloor> \<le> py_round x"
  by (simp add: py_round_def Let_def)

lemma extractBests_hit:
  assumes "1 \<le> k"
  shows "(length (extractBests sc q cs k) > 0 \<and> snd (hd (extractBests sc q cs k)) > 0)
         = (\<exists>c \<in> set cs. sc q c \<ge> k)"
proof (cases "filter (\<lambda>p. snd p \<ge> k) (map (\<lambda>c. (c, sc q c)) cs)")
  case Nil
  then have "\<forall>c \<in> set cs. \<not> sc q c \<ge> k"
    by (auto simp add: filter_empty_conv)
  with Nil show ?thesis
    by (auto simp add: extractBests_def)
next
  case (Cons p ps)
  let ?b = "fold (\<lambda>q best. if snd q > snd best then q else best) ps p"
  have "?b \<in> set (filter (\<lambda>p. snd p \<ge> k) (map (\<lambda>c. (c, sc q c)) cs))"
    using fold_pick_mem [of ps p] Cons by simp
  then have "snd ?b \<ge> k"
    by auto
  with assms have "1 \<le> \<lfloor>snd ?b\<rfloor>"
    by (simp add: le_floor_iff)
  with py_round_floor [of "snd ?b"] have "0 < py_round (snd ?b)"
    by linarith
  moreover have "p \<in> set (filter (\<lambda>p. snd p \<ge> k) (map (\<lambda>c. (c, sc q c)) cs))"
    using Cons by simp
  then have "\<exists>c \<in> set cs. sc q c \<ge> k"
    by auto
  ultimately show ?thesis
    using Cons by (simp add: extractBests_def Let_def)
qed

lemma fuzzy_column_eq:
  assumes "best_match_score st = 0"
  shows "fuzzy_column sc tok c vals st =
     (if list_ex (\<lambda>mv. sc tok mv \<ge> 80) vals then
        st\<lparr>is_match := True,
            row_data := (if c = name_col then (row_data st)(c \<mapsto> tok)
                         else append_field (row_data st) c tok)\<rparr>
      else st)"
  using extractBests_hit [of 80 sc tok vals] assms
  by (simp add: fuzzy_column_def Let_def list_ex_iff)

text \<open>Whatever the state, a column that changes it has a candidate that reaches the cutoff.\<close>

lemma fuzzy_column_only_if:
  assumes "fuzzy_column sc tok c vals st \<noteq> st"
  shows "\<exists>mv \<in> set vals. sc tok mv \<ge> 80"
proof -
  from assms have "length (extractBests sc tok vals 80) > 0"
    by (auto simp add: fuzzy_column_def Let_def split: if_splits)
  then have "filter (\<lambda>p. snd p \<ge> 80) (map (\<lambda>c. (c, sc tok c)) vals) \<noteq> []"
    by (auto simp add: extractBests_def split: list.splits)
  then show ?thesis
    by (auto simp add: filter_empty_conv)
qed

lemma fuzzy_column_dom: "dom (row_data st) \<subseteq> dom (row_data (fuzzy_column sc tok c vals st))"
  by (auto simp add: fuzzy_column_def Let_def append_field_def)

lemma contained_candidates_flags:
  "is_match (contained_candidates tok c vals st) = (is_match st \<or> list_ex (accepted tok) vals)
   \<and> best_match_score (contained_candidates tok c vals st) = best_match_score st"
  by (induction vals) (auto simp add: accepted_def)

lemma contained_candidates_dom:
  "dom (row_data st) \<subseteq> dom (row_data (contained_candidates tok c vals st))"
  by (induction vals) (auto simp add: append_field_def)

text \<open>The name rule raises nothing when the record has the name field, and adds no field.\<close>

lemma name_candidates_dom:
  "name_col \<in> dom rd \<Longrightarrow> \<exists>rd'. name_candidates tok vals rd = Some rd' \<and> dom rd' = dom rd"
proof (induction vals arbitrary: rd)
  case Nil
  show ?case by simp
next
  case (Cons mv vals)
  from Cons.prems obtain cur where cur: "rd name_col = Some cur"
    by auto
  show ?case
  proof (cases "py_in (py_lower mv) (py_lower tok)")
    case False
    with Cons.IH [OF Cons.prems] show ?thesis
      by simp
  next
    case True
    let ?rd1 = "rd(name_col \<mapsto> (if cur = [] \<or> length mv \<ge> length cur then mv else cur))"
    have d: "dom ?rd1 = dom rd"
      using Cons.prems by auto
    then have "name_col \<in> dom ?rd1"
      using Cons.prems by simp
    from Cons.IH [OF this] obtain rd' where
      "name_candidates tok vals ?rd1 = Some rd'" "dom rd' = dom ?rd1"
      by blast
    with True cur d show ?thesis
      by simp
  qed
qed

text \<open>
  The name rule leaves in the name field the longest of the field's value and the
  candidates the token contains. When a candidate is at least as long as the field's
  value, the field ends as a candidate \<open>r\<close> after which every accepted candidate of the
  list is strictly shorter: of the accepted candidates of the greatest length, the last.
\<close>

lemma name_candidates_longest:
  assumes "rd name_col = Some cur"
  shows "\<exists>r. name_candidates tok vals rd = Some (rd(name_col \<mapsto> r))
           \<and> (r = cur \<or> (r \<in> set vals \<and> accepted tok r))
           \<and> length cur \<le> length r
           \<and> (\<forall>mv \<in> set vals. accepted tok mv \<longrightarrow> length mv \<le> length r)
           \<and> ((\<exists>mv \<in> set vals. accepted tok mv \<and> length cur \<le> length mv) \<longrightarrow>
                (\<exists>ys zs. vals = ys @ r # zs \<and> accepted tok r
                   \<and> (\<forall>mv \<in> set zs. accepted tok mv \<longrightarrow> length mv < length r)))"
  using assms
proof (induction vals arbitrary: rd cur)
  case Nil
  then show ?case by (auto simp add: fun_upd_idem)
next
  case (Cons mv vals)
  let ?n = "if accepted tok mv \<and> (cur = [] \<or> length mv \<ge> length cur) then mv else cur"
  let ?rd1 = "rd(name_col \<mapsto> ?n)"
  have "?rd1 name_col = Some ?n"
    by simp
  from Cons.IH [of ?rd1 ?n, OF this] obtain r where
    r: "name_candidates tok vals ?rd1 = Some (?rd1(name_col \<mapsto> r))"
       "r = ?n \<or> (r \<in> set vals \<and> accepted tok r)"
       "length ?n \<le> length r"
       "\<forall>x \<in> set vals. accepted tok x \<longrightarrow> length x \<le> length r"
       "(\<exists>x \<in> set vals. accepted tok x \<and> length ?n \<le> length x) \<longrightarrow>
          (\<exists>ys zs. vals = ys @ r # zs \<and> accepted tok r
             \<and> (\<forall>x \<in> set zs. accepted tok x \<longrightarrow> length x < length r))"
    by blast
  have rd1: "\<not> accepted tok mv \<Longrightarrow> ?rd1 = rd"
    using Cons.prems by (simp add: fun_upd_idem)
  have eq: "name_candidates tok (mv # vals) rd = Some (rd(name_col \<mapsto> r))"
  proof (cases "accepted tok mv")
    case True
    then show ?thesis
      using Cons.prems r(1) by (simp add: accepted_def)
  next
    case False
    then show ?thesis
      using r(1) rd1 by (simp add: accepted_def)
  qed
  have a: "r = cur \<or> (r \<in> set (mv # vals) \<and> accepted tok r)"
    using r(2) by (auto split: if_splits)
  have b: "length cur \<le> length r"
    using r(3) by (auto split: if_splits)
  have c: "\<forall>x \<in> set (mv # vals). accepted tok x \<longrightarrow> length x \<le> length r"
    using r(3,4) by (auto split: if_splits)
  have d: "\<exists>ys zs. mv # vals = ys @ r # zs \<and> accepted tok r
             \<and> (\<forall>x \<in> set zs. accepted tok x \<longrightarrow> length x < length r)"
    if h: "\<exists>x \<in> set (mv # vals). accepted tok x \<and> length cur \<le> length x"
  proof (cases "\<exists>x \<in> set vals. accepted tok x \<and> length ?n \<le> length x")
    case True
    with r(5) obtain ys zs where
      "vals = ys @ r # zs" "accepted tok r"
      "\<forall>x \<in> set zs. accepted tok x \<longrightarrow> length x < length r"
      by blast
    then have "mv # vals = (mv # ys) @ r # zs \<and> accepted tok r
        \<and> (\<forall>x \<in> set zs. accepted tok x \<longrightarrow> length x < length r)"
      by simp
    then show ?thesis
      by blast
  next
    case False
    then have short: "\<forall>x \<in> set vals. accepted tok x \<longrightarrow> length x < length ?n"
      by auto
    have taken: "accepted tok mv \<and> length cur \<le> length mv"
    proof (rule ccontr)
      assume n: "\<not> (accepted tok mv \<and> length cur \<le> length mv)"
      then have "?n = cur"
        by auto
      with short n h show False
        by auto
    qed
    then have n: "?n = mv"
      by auto
    have "r = mv"
    proof (rule ccontr)
      assume "r \<noteq> mv"
      with r(2) n have "r \<in> set vals \<and> accepted tok r"
        by auto
      with short have "length r < length ?n"
        by blast
      with r(3) show False
        by simp
    qed
    with taken short n have "mv # vals = [] @ r # vals \<and> accepted tok r
        \<and> (\<forall>x \<in> set vals. accepted tok x \<longrightarrow> length x < length r)"
      by simp
    then show ?thesis
      by blast
  qed
  from eq a b c d show ?case
    by blast
qed

text \<open>
  A column marks the token matched by the rules of \<open>column_matches\<close> and by nothing
  else, and \<^verbatim>\<open>best_match_score\<close> stays 0.
\<close>

lemma column_step_flags:
  assumes "column_step sc tok col st = Some st'" and "best_match_score st = 0"
  shows "is_match st' = (is_match st \<or> column_matches sc tok col) \<and> best_match_score st' = 0"
proof -
  obtain st1 where st1:
    "(if fst col = name_col
      then map_option (\<lambda>rd. st\<lparr>row_data := rd\<rparr>) (name_candidates tok (snd col) (row_data st))
      else Some st) = Some st1"
    using assms(1) by (auto simp add: column_step_def Let_def split: option.splits)
  then have f: "is_match st1 = is_match st" "best_match_score st1 = 0"
    using assms(2) by (auto split: if_splits)
  show ?thesis
  proof (cases "fst col = standard_col \<or> fst col = material_col")
    case True
    then have "st' = contained_candidates tok (fst col) (snd col) st1"
      using assms(1) st1 by (simp add: column_step_def Let_def)
    then show ?thesis
      using True f contained_candidates_flags [of tok "fst col" "snd col" st1]
      by (simp add: column_matches_def)
  next
    case False
    then have "st' = fuzzy_column sc tok (fst col) (snd col) st1"
      using assms(1) st1 by (simp add: column_step_def Let_def)
    then show ?thesis
      using False f by (simp add: fuzzy_column_eq column_matches_def)
  qed
qed

lemma columns_loop_flags:
  assumes "columns_loop sc tok kb st = Some st'" and "best_match_score st = 0"
  shows "is_match st' = (is_match st \<or> token_matched sc kb tok) \<and> best_match_score st' = 0"
  using assms
proof (induction kb arbitrary: st)
  case Nil
  then show ?case by (simp add: token_matched_def)
next
  case (Cons col kb)
  from Cons.prems(1) obtain st1 where
    s: "column_step sc tok col st = Some st1" "columns_loop sc tok kb st1 = Some st'"
    by (auto split: option.splits)
  from column_step_flags [OF s(1) Cons.prems(2)] Cons.IH [OF s(2)] show ?case
    by (auto simp add: token_matched_def)
qed

text \<open>
  The loops return: on a record that has every column of the knowledge base as a field
  nothing raises, and no field is lost.
\<close>

lemma column_step_total:
  assumes "fst col \<in> dom (row_data st)"
  shows "\<exists>st'. column_step sc tok col st = Some st' \<and> dom (row_data st) \<subseteq> dom (row_data st')"
proof (cases "fst col = name_col")
  case True
  then obtain rd' where
    rd': "name_candidates tok (snd col) (row_data st) = Some rd'" "dom rd' = dom (row_data st)"
    using name_candidates_dom [of "row_data st" tok "snd col"] assms by auto
  let ?st1 = "st\<lparr>row_data := rd'\<rparr>"
  have "column_step sc tok col st = Some (fuzzy_column sc tok (fst col) (snd col) ?st1)"
    using True rd'(1) designated_distinct by (simp add: column_step_def Let_def)
  moreover have "dom (row_data st) \<subseteq> dom (row_data (fuzzy_column sc tok (fst col) (snd col) ?st1))"
    using fuzzy_column_dom [of ?st1 sc tok "fst col" "snd col"] rd'(2) by simp
  ultimately show ?thesis
    by simp
next
  case False
  then have "column_step sc tok col st =
        Some (if fst col = standard_col \<or> fst col = material_col
              then contained_candidates tok (fst col) (snd col) st
              else fuzzy_column sc tok (fst col) (snd col) st)"
    by (simp add: column_step_def Let_def)
  then show ?thesis
    using contained_candidates_dom fuzzy_column_dom by simp
qed

lemma columns_loop_total:
  "fst ` set kb \<subseteq> dom (row_data st) \<Longrightarrow>
     \<exists>st'. columns_loop sc tok kb st = Some st' \<and> dom (row_data st) \<subseteq> dom (row_data st')"
proof (induction kb arbitrary: st)
  case Nil
  then show ?case by simp
next
  case (Cons col kb)
  from Cons.prems have "fst col \<in> dom (row_data st)"
    by simp
  from column_step_total [OF this] obtain st1 where
    s: "column_step sc tok col st = Some st1" "dom (row_data st) \<subseteq> dom (row_data st1)"
    by blast
  have "fst ` set kb \<subseteq> dom (row_data st)"
    using Cons.prems by simp
  then have "fst ` set kb \<subseteq> dom (row_data st1)"
    using s(2) by (rule subset_trans)
  from Cons.IH [OF this] obtain st' where
    t: "columns_loop sc tok kb st1 = Some st'" "dom (row_data st1) \<subseteq> dom (row_data st')"
    by blast
  have "dom (row_data st) \<subseteq> dom (row_data st')"
    using s(2) t(2) by (rule subset_trans)
  with s(1) t(1) show ?case
    by simp
qed

lemma token_step_total:
  assumes "fst ` set kb \<subseteq> dom rd"
  shows "\<exists>rd'. token_step sc kb tok rd = Some rd' \<and> dom rd \<subseteq> dom rd'"
proof -
  let ?st0 = "\<lparr>row_data = rd, best_match_score = 0, is_match = False\<rparr>"
  obtain st where st: "columns_loop sc tok kb ?st0 = Some st" "dom rd \<subseteq> dom (row_data st)"
    using columns_loop_total [of kb ?st0 sc tok] assms by auto
  then show ?thesis
    by (auto simp add: token_step_def append_field_def)
qed

lemma tokens_loop_total:
  "fst ` set kb \<subseteq> dom rd \<Longrightarrow> \<exists>rd'. tokens_loop sc kb toks rd = Some rd'"
proof (induction toks arbitrary: rd)
  case Nil
  show ?case by simp
next
  case (Cons tok toks)
  from token_step_total [OF Cons.prems] obtain rd1 where
    s: "token_step sc kb tok rd = Some rd1" "dom rd \<subseteq> dom rd1"
    by blast
  from Cons.prems s(2) have "fst ` set kb \<subseteq> dom rd1"
    by (rule subset_trans)
  from Cons.IH [OF this] s(1) show ?case
    by simp
qed

lemma initial_row_fold_dom:
  "dom (fold (\<lambda>key rd. rd(key \<mapsto> [])) keys rd0) = set keys \<union> dom rd0"
  by (induction keys arbitrary: rd0) auto

lemma decompose_returns: "\<exists>r. decompose sc kb v = Some r"
proof -
  have "fst ` set kb \<subseteq> dom (initial_row kb v)"
    by (auto simp add: initial_row_def initial_row_fold_dom)
  then show ?thesis
    unfolding decompose_def by (rule tokens_loop_total)
qed

section \<open>C1: two generic columns both take the token\<close>

text \<open>
  C1 on a knowledge base with two generic columns (wall thickness with the value
  \<^verbatim>\<open>SCH 40\<close>, pressure with the value \<^verbatim>\<open>SCH 40S\<close>) and the cell \<^verbatim>\<open>SCH 40\<close>. The first column
  scores 100, the second 1200/13 (reported as 92). A single best-scoring column would
  leave the second field empty; the script writes the token into both, because
  \<^verbatim>\<open>best_match_score\<close> is still 0 when the second column is compared with it.
\<close>

theorem decompose_two_generic_columns:
  "token_sort_ratio (ustr ''SCH 40'') (ustr ''SCH 40'') = 100
   \<and> token_sort_ratio (ustr ''SCH 40'') (ustr ''SCH 40S'') = 1200 / 13
   \<and> py_round (token_sort_ratio (ustr ''SCH 40'') (ustr ''SCH 40S'')) = 92
   \<and> map_option (\<lambda>r. (r [0x58C1, 0x539A], r [0x538B, 0x529B], r remark_col))
       (decompose token_sort_ratio kb_two_generic (Text (ustr ''SCH 40'')))
     = Some (Some (ustr ''SCH 40''), Some (ustr ''SCH 40''), Some [])"
  by (simp add: dec_defs fuzz_defs num_defs kb_two_generic_def col_defs str_defs py_round_def)

section \<open>C8: the name rule does not mark a token matched\<close>

text \<open>
  The cutoff is applied before rounding: a similarity of 79.6 is reported as 80 by the
  library's rounding, and is not a match.
\<close>

lemma cutoff_before_rounding:
  "py_round (796 / 10) = 80 \<and> extractBests (\<lambda>q c. 796 / 10) q [c] 80 = []"
  by (simp add: py_round_def extractBests_def)

text \<open>
  C8, as the code has it. A token that is not passed over is appended to the remark
  field exactly when \<open>token_matched\<close> fails for it: no standard or material candidate
  is contained in it and no candidate of another column (the name column included)
  has a similarity of at least 80 with it, before rounding. That the name rule accepted
  a candidate plays no part. The record is assumed to have every column of the knowledge
  base as a field, as the record \<open>initial_row\<close> builds has; the token and the candidates
  are ASCII and CJK text.
\<close>

theorem token_step_remark:
  assumes "\<not> skipped_token tok" and "fst ` set kb \<subseteq> dom rd"
    and "plain_text tok" and "plain_knowledge kb"
  shows "\<exists>st. columns_loop sc tok kb \<lparr>row_data = rd, best_match_score = 0, is_match = False\<rparr>
               = Some st
           \<and> token_step sc kb tok rd =
               Some (if token_matched sc kb tok then row_data st
                     else append_field (row_data st) remark_col tok)"
proof -
  let ?st0 = "\<lparr>row_data = rd, best_match_score = 0, is_match = False\<rparr>"
  obtain st where st: "columns_loop sc tok kb ?st0 = Some st"
    using columns_loop_total [of kb ?st0 sc tok] assms(2) by auto
  from columns_loop_flags [OF st] have "is_match st = token_matched sc kb tok"
    by simp
  with st assms(1) show ?thesis
    by (simp add: token_step_def)
qed

text \<open>
  The theorem at the token \<^verbatim>\<open>Stainless Steel 316L\<close> with the one name candidate
  \<^verbatim>\<open>Steel\<close>: the token is not matched and goes to the remark field.
\<close>

theorem token_step_remark_witness:
  "\<not> skipped_token (ustr ''Stainless Steel 316L'')
   \<and> fst ` set kb_steel_name
       \<subseteq> dom (initial_row kb_steel_name (Text (ustr ''Stainless Steel 316L'')))
   \<and> plain_text (ustr ''Stainless Steel 316L'')
   \<and> plain_knowledge kb_steel_name
   \<and> \<not> token_matched token_sort_ratio kb_steel_name (ustr ''Stainless Steel 316L'')
   \<and> (\<exists>st. columns_loop token_sort_ratio (ustr ''Stainless Steel 316L'') kb_steel_name
              \<lparr>row_data = initial_row kb_steel_name (Text (ustr ''Stainless Steel 316L'')),
               best_match_score = 0, is_match = False\<rparr> = Some st
          \<and> token_step token_sort_ratio kb_steel_name (ustr ''Stainless Steel 316L'')
               (initial_row kb_steel_name (Text (ustr ''Stainless Steel 316L'')))
             = Some (append_field (row_data st) remark_col (ustr ''Stainless Steel 316L'')))"
proof -
  let ?tok = "ustr ''Stainless Steel 316L''"
  let ?rd = "initial_row kb_steel_name (Text ?tok)"
  have h1: "\<not> skipped_token ?tok"
    by (simp add: skipped_token_def num_defs str_defs)
  have h2: "fst ` set kb_steel_name \<subseteq> dom ?rd"
    by (simp add: initial_row_def kb_steel_name_def col_defs)
  have h3: "\<not> token_matched token_sort_ratio kb_steel_name ?tok"
    by (simp add: token_matched_def column_matches_def kb_steel_name_def col_defs fuzz_defs
        str_defs)
  have h4: "plain_text ?tok"
    by (simp add: plain_text_def)
  have h5: "plain_knowledge kb_steel_name"
    by (simp add: plain_knowledge_def plain_text_def kb_steel_name_def)
  from token_step_remark [OF h1 h2 h4 h5, of token_sort_ratio] h1 h2 h3 h4 h5
  show ?thesis
    by simp
qed

text \<open>
  The claim as stated (a token the name rule accepted stays out of the remainder) fails
  on that cell: \<^verbatim>\<open>Steel\<close> is accepted as the name, and the token is the remark.
\<close>

theorem name_accepted_token_in_remark_counterexample:
  "accepted (ustr ''Stainless Steel 316L'') (ustr ''Steel'')
   \<and> map_option (\<lambda>r. (r name_col, r remark_col))
       (decompose token_sort_ratio kb_steel_name (Text (ustr ''Stainless Steel 316L'')))
     = Some (Some (ustr ''Steel''), Some (ustr ''Stainless Steel 316L''))"
  by (simp add: dec_defs fuzz_defs num_defs kb_steel_name_def col_defs str_defs accepted_def
      py_round_def)

section \<open>C10: the name field after the name column\<close>

text \<open>
  C10, as the code has it. When the name column is processed for a token, the substring
  rule selects \<open>r\<close>, the longest of the field's value and the candidates the token
  contains; when a candidate is at least as long as the field's value (on a fresh
  record: when any candidate is accepted), \<open>r\<close> is the last of the accepted candidates of
  the greatest length, so that of two equally long ones the later wins. The name column
  is then scored like any generic column: if one of its candidates has a similarity of
  at least 80 with the token, before rounding, the name field is overwritten with the
  token itself; otherwise it holds \<open>r\<close>. The token and the candidates are ASCII and CJK
  text.
\<close>

theorem name_column_result:
  assumes "row_data st name_col = Some cur" and "best_match_score st = 0"
    and "plain_text tok" and "list_all plain_text vals"
  shows "\<exists>r st'. column_step sc tok (name_col, vals) st = Some st'
     \<and> (r = cur \<or> (r \<in> set vals \<and> accepted tok r))
     \<and> length cur \<le> length r
     \<and> (\<forall>mv \<in> set vals. accepted tok mv \<longrightarrow> length mv \<le> length r)
     \<and> ((\<exists>mv \<in> set vals. accepted tok mv \<and> length cur \<le> length mv) \<longrightarrow>
          (\<exists>ys zs. vals = ys @ r # zs \<and> accepted tok r
             \<and> (\<forall>mv \<in> set zs. accepted tok mv \<longrightarrow> length mv < length r)))
     \<and> row_data st' name_col = Some (if list_ex (\<lambda>mv. sc tok mv \<ge> 80) vals then tok else r)"
proof -
  from name_candidates_longest [of "row_data st" cur tok vals, OF assms(1)] obtain r where
    r: "name_candidates tok vals (row_data st) = Some ((row_data st)(name_col \<mapsto> r))"
       "r = cur \<or> (r \<in> set vals \<and> accepted tok r)"
       "length cur \<le> length r"
       "\<forall>mv \<in> set vals. accepted tok mv \<longrightarrow> length mv \<le> length r"
       "(\<exists>mv \<in> set vals. accepted tok mv \<and> length cur \<le> length mv) \<longrightarrow>
          (\<exists>ys zs. vals = ys @ r # zs \<and> accepted tok r
             \<and> (\<forall>mv \<in> set zs. accepted tok mv \<longrightarrow> length mv < length r))"
    by blast
  let ?st1 = "st\<lparr>row_data := (row_data st)(name_col \<mapsto> r)\<rparr>"
  have b: "best_match_score ?st1 = 0"
    using assms(2) by simp
  have "column_step sc tok (name_col, vals) st = Some (fuzzy_column sc tok name_col vals ?st1)"
    using r(1) designated_distinct by (simp add: column_step_def)
  moreover have "row_data (fuzzy_column sc tok name_col vals ?st1) name_col
      = Some (if list_ex (\<lambda>mv. sc tok mv \<ge> 80) vals then tok else r)"
    by (simp add: fuzzy_column_eq [OF b])
  ultimately show ?thesis
    using r(2,3,4,5) by blast
qed

lemma score_steel_names:
  "list_ex (\<lambda>mv. token_sort_ratio (ustr ''Stainless Steel 316L'') mv \<ge> 80)
     [ustr ''Steel'', ustr ''Stainless Steel'']"
  by (simp add: str_defs fuzz_defs)

lemma score_pipe_tube:
  "\<not> list_ex (\<lambda>mv. token_sort_ratio (ustr ''Pipe Tube fitting'') mv \<ge> 80)
       [ustr ''Pipe'', ustr ''Tube'']"
  by (simp add: str_defs fuzz_defs)

text \<open>
  The theorem at the example of the specification: on the fresh record the name column
  leaves the token itself in the name field. And at the token \<^verbatim>\<open>Pipe Tube fitting\<close> with
  the candidates \<^verbatim>\<open>Pipe\<close> and \<^verbatim>\<open>Tube\<close>, in this order: both are accepted, neither reaches
  the cutoff, and the name field holds the later one.
\<close>

theorem name_column_result_witness:
  "initial_row kb_steel_names (Text (ustr ''Stainless Steel 316L'')) name_col = Some []
   \<and> plain_text (ustr ''Stainless Steel 316L'')
   \<and> list_all plain_text [ustr ''Steel'', ustr ''Stainless Steel'']
   \<and> (\<exists>st'. column_step token_sort_ratio (ustr ''Stainless Steel 316L'')
               (name_col, [ustr ''Steel'', ustr ''Stainless Steel''])
               \<lparr>row_data = initial_row kb_steel_names (Text (ustr ''Stainless Steel 316L'')),
                best_match_score = 0, is_match = False\<rparr> = Some st'
            \<and> row_data st' name_col = Some (ustr ''Stainless Steel 316L''))
   \<and> initial_row kb_pipe_tube (Text (ustr ''Pipe Tube fitting'')) name_col = Some []
   \<and> plain_text (ustr ''Pipe Tube fitting'')
   \<and> list_all plain_text [ustr ''Pipe'', ustr ''Tube'']
   \<and> (\<exists>st'. column_step token_sort_ratio (ustr ''Pipe Tube fitting'')
               (name_col, [ustr ''Pipe'', ustr ''Tube''])
               \<lparr>row_data = initial_row kb_pipe_tube (Text (ustr ''Pipe Tube fitting'')),
                best_match_score = 0, is_match = False\<rparr> = Some st'
            \<and> row_data st' name_col = Some (ustr ''Tube''))
   \<and> map_option (\<lambda>r. r name_col)
        (decompose token_sort_ratio kb_pipe_tube (Text (ustr ''Pipe Tube fitting'')))
      = Some (Some (ustr ''Tube''))"
proof -
  let ?tok = "ustr ''Stainless Steel 316L''"
  let ?st = "\<lparr>row_data = initial_row kb_steel_names (Text ?tok),
              best_match_score = 0, is_match = False\<rparr>"
  have h1: "row_data ?st name_col = Some []"
    by (simp add: initial_row_def kb_steel_names_def col_defs)
  have h2: "best_match_score ?st = 0"
    by simp
  have h3: "plain_text ?tok"
    by (simp add: plain_text_def)
  have h4: "list_all plain_text [ustr ''Steel'', ustr ''Stainless Steel'']"
    by (simp add: plain_text_def)
  have a: "\<exists>st'. column_step token_sort_ratio ?tok
               (name_col, [ustr ''Steel'', ustr ''Stainless Steel'']) ?st = Some st'
            \<and> row_data st' name_col = Some ?tok"
    using name_column_result [OF h1 h2 h3 h4, of token_sort_ratio] score_steel_names
    by auto
  let ?tok2 = "ustr ''Pipe Tube fitting''"
  let ?vals2 = "[ustr ''Pipe'', ustr ''Tube'']"
  let ?st2 = "\<lparr>row_data = initial_row kb_pipe_tube (Text ?tok2),
               best_match_score = 0, is_match = False\<rparr>"
  have k1: "row_data ?st2 name_col = Some []"
    by (simp add: initial_row_def kb_pipe_tube_def col_defs)
  have k2: "best_match_score ?st2 = 0"
    by simp
  have k3: "plain_text ?tok2"
    by (simp add: plain_text_def)
  have k4: "list_all plain_text ?vals2"
    by (simp add: plain_text_def)
  have acc: "accepted ?tok2 (ustr ''Pipe'')" "accepted ?tok2 (ustr ''Tube'')"
    by (simp_all add: accepted_def str_defs)
  from name_column_result [OF k1 k2 k3 k4, of token_sort_ratio]
  obtain r st' where
    r: "column_step token_sort_ratio ?tok2 (name_col, ?vals2) ?st2 = Some st'"
       "(\<exists>mv \<in> set ?vals2. accepted ?tok2 mv \<and> length ([] :: ustring) \<le> length mv) \<longrightarrow>
          (\<exists>ys zs. ?vals2 = ys @ r # zs \<and> accepted ?tok2 r
             \<and> (\<forall>mv \<in> set zs. accepted ?tok2 mv \<longrightarrow> length mv < length r))"
       "row_data st' name_col
          = Some (if list_ex (\<lambda>mv. token_sort_ratio ?tok2 mv \<ge> 80) ?vals2 then ?tok2 else r)"
    by blast
  from r(2) acc obtain ys zs where
    d: "?vals2 = ys @ r # zs" "\<forall>mv \<in> set zs. accepted ?tok2 mv \<longrightarrow> length mv < length r"
    by auto
  have "r = ustr ''Tube''"
  proof (cases ys)
    case Nil
    with d(1) have "r = ustr ''Pipe''" "zs = [ustr ''Tube'']"
      by simp_all
    with d(2) acc(2) show ?thesis
      by simp
  next
    case (Cons y ys')
    with d(1) have "[ustr ''Tube''] = ys' @ r # zs"
      by simp
    then show ?thesis
      by (cases ys') simp_all
  qed
  with r(1,3) score_pipe_tube have b: "\<exists>st'. column_step token_sort_ratio ?tok2
               (name_col, ?vals2) ?st2 = Some st'
            \<and> row_data st' name_col = Some (ustr ''Tube'')"
    by simp
  have c: "map_option (\<lambda>r. r name_col) (decompose token_sort_ratio kb_pipe_tube (Text ?tok2))
      = Some (Some (ustr ''Tube''))"
    by (simp add: dec_defs fuzz_defs num_defs kb_pipe_tube_def col_defs str_defs py_round_def)
  show ?thesis
    using h1 h3 h4 a k1 k3 k4 b c by simp
qed

text \<open>
  The claim as stated fails on its own example: both candidates are accepted, the longer
  one has the similarity 600/7 with the token, which is above the cutoff (and reported
  as 86), and the name field of the finished record is the token
  \<^verbatim>\<open>Stainless Steel 316L\<close>, not the candidate \<^verbatim>\<open>Stainless Steel\<close>.
\<close>

theorem name_field_longest_counterexample:
  "map_option (\<lambda>r. r name_col)
     (decompose token_sort_ratio kb_steel_names (Text (ustr ''Stainless Steel 316L'')))
   = Some (Some (ustr ''Stainless Steel 316L''))
   \<and> accepted (ustr ''Stainless Steel 316L'') (ustr ''Stainless Steel'')
   \<and> accepted (ustr ''Stainless Steel 316L'') (ustr ''Steel'')
   \<and> token_sort_ratio (ustr ''Stainless Steel 316L'') (ustr ''Stainless Steel'') = 600 / 7
   \<and> py_round (token_sort_ratio (ustr ''Stainless Steel 316L'') (ustr ''Stainless Steel'')) = 86"
  by (simp add: dec_defs fuzz_defs num_defs kb_steel_names_def col_defs str_defs accepted_def
      py_round_def)

section \<open>ValueHarvester: merging into the knowledge base\<close>

lemmas harv_defs = process_excel_file_def df_empty_def ncols_def find_header_row_def
  is_header_row_def dropna_def isna_def is_str_def process_header_def column_name_at_def
  py_str_def harvest_column_def should_skip_column_def is_in_white_list_def keyword_hit_def
  contains_chinese_def cell_at_def clean_item_def merge_column_def kb_values_def Let_def
  skip_keywords_def white_list_keywords_def

text \<open>
  C4. A value that contains a value already in the standard column is discarded, and
  the knowledge base is as it was; in any other column the value is added, whatever
  the column holds. For a batch, the standard column gains exactly the values of the
  batch that contain none of its values.
\<close>

theorem merge_standard_subsumption:
  "(all_data standard_col = Some existing \<and> e \<in> existing \<and> py_in e v
      \<longrightarrow> merge_column standard_col [v] all_data = all_data)
   \<and> (c \<noteq> standard_col
      \<longrightarrow> merge_column c [v] all_data c = Some (insert v (kb_values all_data c)))
   \<and> merge_column standard_col items all_data standard_col =
       Some (kb_values all_data standard_col
             \<union> {x \<in> set items. \<not> (\<exists>e \<in> kb_values all_data standard_col. py_in e x)})"
proof (intro conjI impI)
  assume h: "all_data standard_col = Some existing \<and> e \<in> existing \<and> py_in e v"
  then have "existing \<union> set (filter (\<lambda>item. \<not> (\<exists>item2 \<in> existing. py_in item2 item)) [v])
             = existing"
    by auto
  with h show "merge_column standard_col [v] all_data = all_data"
    by (simp add: merge_column_def Let_def kb_values_def fun_upd_idem del: set_filter)
next
  assume "c \<noteq> standard_col"
  then show "merge_column c [v] all_data c = Some (insert v (kb_values all_data c))"
    by (simp add: merge_column_def Let_def)
next
  show "merge_column standard_col items all_data standard_col =
       Some (kb_values all_data standard_col
             \<union> {x \<in> set items. \<not> (\<exists>e \<in> kb_values all_data standard_col. py_in e x)})"
    by (simp add: merge_column_def Let_def)
qed

text \<open>
  The theorem at the example of the specification: \<^verbatim>\<open>A312\<close> is in the standard column
  and \<^verbatim>\<open>ASTM A312\<close> arrives, directly and through a sheet; the same two values in the
  material column are both kept.
\<close>

theorem merge_standard_subsumption_witness:
  "py_in (ustr ''A312'') (ustr ''ASTM A312'')
   \<and> merge_column standard_col [ustr ''ASTM A312''] (Map.empty(standard_col \<mapsto> {ustr ''A312''}))
       = Map.empty(standard_col \<mapsto> {ustr ''A312''})
   \<and> merge_column material_col [ustr ''ASTM A312''] (Map.empty(material_col \<mapsto> {ustr ''A312''}))
       material_col = Some {ustr ''ASTM A312'', ustr ''A312''}
   \<and> process_excel_file skip_keywords white_list_keywords file_standard_long
       (Map.empty(standard_col \<mapsto> {ustr ''A312''}))
       = Map.empty(standard_col \<mapsto> {ustr ''A312''})"
proof -
  let ?kb = "Map.empty(standard_col \<mapsto> {ustr ''A312''})"
  have h: "py_in (ustr ''A312'') (ustr ''ASTM A312'')"
    by simp
  have a: "merge_column standard_col [ustr ''ASTM A312''] ?kb = ?kb"
    using merge_standard_subsumption [of ?kb "{ustr ''A312''}" "ustr ''A312''" "ustr ''ASTM A312''"] h
    by simp
  have b: "merge_column material_col [ustr ''ASTM A312''] (Map.empty(material_col \<mapsto> {ustr ''A312''}))
       material_col = Some {ustr ''ASTM A312'', ustr ''A312''}"
    using merge_standard_subsumption [of "Map.empty(material_col \<mapsto> {ustr ''A312''})" _ _
        "ustr ''ASTM A312''" material_col]
    by (simp add: kb_values_def col_defs)
  have c: "process_excel_file skip_keywords white_list_keywords file_standard_long ?kb = ?kb"
    by (simp add: harv_defs file_standard_long_def str_defs num_defs col_defs enumerate_eq_zip
        upt_rec del: set_filter)
  show ?thesis
    using h a b c by simp
qed

text \<open>
  C5, as the code has it. A merge compares each new value with the values the standard
  column held before the merge, and only with them: a value the merge adds contains
  none of those. The values of one batch are not compared with each other, and a new
  value that is contained in an old one is added.
\<close>

theorem merge_standard_new_values:
  assumes "merge_column standard_col items all_data standard_col = Some retained"
    and "v \<in> retained" and "v \<notin> kb_values all_data standard_col"
    and "e \<in> kb_values all_data standard_col"
  shows "\<not> py_in e v"
  using assms by (auto simp add: merge_column_def Let_def)

theorem merge_standard_new_values_witness:
  "merge_column standard_col [ustr ''ASTM A312'', ustr ''B16.5'']
       (Map.empty(standard_col \<mapsto> {ustr ''A312''})) standard_col
     = Some {ustr ''A312'', ustr ''B16.5''}
   \<and> ustr ''B16.5'' \<notin> kb_values (Map.empty(standard_col \<mapsto> {ustr ''A312''})) standard_col
   \<and> ustr ''A312'' \<in> kb_values (Map.empty(standard_col \<mapsto> {ustr ''A312''})) standard_col
   \<and> \<not> py_in (ustr ''A312'') (ustr ''B16.5'')"
proof -
  let ?kb = "Map.empty(standard_col \<mapsto> {ustr ''A312''})"
  have a: "merge_column standard_col [ustr ''ASTM A312'', ustr ''B16.5''] ?kb standard_col
     = Some {ustr ''A312'', ustr ''B16.5''}"
    by (simp add: merge_column_def kb_values_def Let_def insert_commute del: set_filter)
  have b: "ustr ''B16.5'' \<notin> kb_values ?kb standard_col"
    by (simp add: kb_values_def)
  have c: "ustr ''A312'' \<in> kb_values ?kb standard_col"
    by (simp add: kb_values_def)
  have "\<not> py_in (ustr ''A312'') (ustr ''B16.5'')"
    using merge_standard_new_values [OF a _ b c] by simp
  with a b c show ?thesis
    by simp
qed

text \<open>
  The claim as stated fails when \<^verbatim>\<open>A312\<close> and \<^verbatim>\<open>ASTM A312\<close> arrive in one batch from one
  sheet: both are retained, and the first is a strict substring of the second.
\<close>

theorem standard_batch_counterexample:
  "process_excel_file skip_keywords white_list_keywords file_standard_batch Map.empty
       standard_col = Some {ustr ''A312'', ustr ''ASTM A312''}
   \<and> py_in (ustr ''A312'') (ustr ''ASTM A312'')
   \<and> ustr ''A312'' \<noteq> ustr ''ASTM A312''"
  by (simp add: harv_defs file_standard_batch_def str_defs num_defs col_defs enumerate_eq_zip
      upt_rec del: set_filter)

section \<open>ValueHarvester: harvesting twice\<close>

lemma kb_le_refl: "kb_le a a"
  by (simp add: kb_le_def split: option.splits)

lemma kb_le_trans: "kb_le a b \<Longrightarrow> kb_le b c \<Longrightarrow> kb_le a c"
  unfolding kb_le_def
proof
  fix k
  assume ab: "\<forall>c. case a c of None \<Rightarrow> True | Some vs \<Rightarrow> (case b c of None \<Rightarrow> False | Some vs' \<Rightarrow> vs \<subseteq> vs')"
    and bc: "\<forall>ca. case b ca of None \<Rightarrow> True | Some vs \<Rightarrow> (case c ca of None \<Rightarrow> False | Some vs' \<Rightarrow> vs \<subseteq> vs')"
  from ab [rule_format, of k] bc [rule_format, of k]
  show "case a k of None \<Rightarrow> True | Some vs \<Rightarrow> (case c k of None \<Rightarrow> False | Some vs' \<Rightarrow> vs \<subseteq> vs')"
    by (auto split: option.splits)
qed

lemma settles_id: "settles (\<lambda>kb. kb)"
  by (simp add: settles_def kb_le_refl)

lemma settles_comp:
  assumes "settles f" and "settles g"
  shows "settles (\<lambda>kb. g (f kb))"
  unfolding settles_def
proof (intro allI conjI impI)
  fix kb
  show "kb_le kb (g (f kb))"
    using assms kb_le_trans unfolding settles_def by blast
next
  fix kb kb'
  assume h: "kb_le (g (f kb)) kb'"
  have "kb_le (f kb) (g (f kb))"
    using assms(2) unfolding settles_def by blast
  then have "kb_le (f kb) kb'"
    using h by (rule kb_le_trans)
  then have "f kb' = kb'"
    using assms(1) unfolding settles_def by blast
  moreover have "g kb' = kb'"
    using assms(2) h unfolding settles_def by blast
  ultimately show "g (f kb') = kb'"
    by simp
qed

lemma settles_merge_column: "settles (merge_column c items)"
  unfolding settles_def
proof (intro allI conjI impI)
  fix kb
  show "kb_le kb (merge_column c items kb)"
    by (auto simp add: kb_le_def merge_column_def Let_def kb_values_def split: option.splits)
next
  fix kb kb'
  assume h: "kb_le (merge_column c items kb) kb'"
  let ?existing = "kb_values kb c"
  let ?kept = "if c = standard_col
               then filter (\<lambda>item. \<not> (\<exists>item2 \<in> ?existing. py_in item2 item)) items
               else items"
  have m: "merge_column c items kb c = Some (?existing \<union> set ?kept)"
    by (simp add: merge_column_def Let_def)
  from h [unfolded kb_le_def, rule_format, of c] m obtain vs' where
    vs': "kb' c = Some vs'" "?existing \<union> set ?kept \<subseteq> vs'"
    by (auto split: option.splits)
  let ?kept' = "if c = standard_col
               then filter (\<lambda>item. \<not> (\<exists>item2 \<in> vs'. py_in item2 item)) items
               else items"
  have "set ?kept' \<subseteq> vs'"
  proof (cases "c = standard_col")
    case False
    with vs'(2) show ?thesis by auto
  next
    case True
    have "set (filter (\<lambda>item. \<not> (\<exists>item2 \<in> vs'. py_in item2 item)) items) = {}"
    proof (rule ccontr)
      assume "set (filter (\<lambda>item. \<not> (\<exists>item2 \<in> vs'. py_in item2 item)) items) \<noteq> {}"
      then obtain item where i: "item \<in> set items" "\<not> (\<exists>item2 \<in> vs'. py_in item2 item)"
        by auto
      from i(2) py_in_refl have "item \<notin> vs'"
        by blast
      with vs'(2) True i(1) have "\<exists>item2 \<in> ?existing. py_in item2 item"
        by auto
      with vs'(2) i(2) show False
        by blast
    qed
    with True show ?thesis by simp
  qed
  then have "vs' \<union> set ?kept' = vs'"
    by auto
  then show "merge_column c items kb' = kb'"
    using vs'(1) by (simp add: merge_column_def Let_def kb_values_def fun_upd_idem)
qed

lemma settles_harvest_column: "settles (harvest_column kws wl df col)"
proof -
  have "harvest_column kws wl df col = (\<lambda>kb. kb) \<or>
        (\<exists>items. harvest_column kws wl df col = merge_column (snd col) items)"
    by (auto simp add: harvest_column_def Let_def fun_eq_iff)
  then show ?thesis
    using settles_id settles_merge_column by auto
qed

lemma settles_columns_loop: "settles (columns_loop_harvest kws wl df cols)"
proof (induction cols)
  case Nil
  have "columns_loop_harvest kws wl df [] = (\<lambda>kb. kb)"
    by (rule ext) simp
  then show ?case
    using settles_id by simp
next
  case (Cons col cols)
  have "columns_loop_harvest kws wl df (col # cols) =
        (\<lambda>kb. columns_loop_harvest kws wl df cols (harvest_column kws wl df col kb))"
    by (rule ext) simp
  then show ?case
    using settles_comp [OF settles_harvest_column Cons.IH] by simp
qed

lemma settles_sheets_loop: "settles (sheets_loop kws wl s0 sheets)"
proof (induction sheets)
  case Nil
  have "sheets_loop kws wl s0 [] = (\<lambda>kb. kb)"
    by (rule ext) simp
  then show ?case
    using settles_id by simp
next
  case (Cons sheet rest)
  show ?case
  proof (cases sheet)
    case None
    then have "sheets_loop kws wl s0 (sheet # rest) = (\<lambda>kb. kb)"
      by (intro ext) simp
    then show ?thesis
      using settles_id by simp
  next
    case (Some df)
    show ?thesis
    proof (cases "df_empty df \<or> find_header_row df + 1 \<ge> length df \<or> s0 = None")
      case True
      then have "sheets_loop kws wl s0 (sheet # rest) = (\<lambda>kb. kb)"
        using Some by (intro ext) (auto simp add: Let_def)
      then show ?thesis
        using settles_id by simp
    next
      case False
      then obtain df0 where df0: "s0 = Some df0"
        by auto
      let ?cols = "enumerate 0 (process_header (df ! find_header_row df) (df ! (find_header_row df + 1)))"
      let ?data = "drop (find_header_row df + 1) df0"
      have "sheets_loop kws wl s0 (sheet # rest) =
            (\<lambda>kb. sheets_loop kws wl s0 rest (columns_loop_harvest kws wl ?data ?cols kb))"
        using Some False df0 by (intro ext) (simp add: Let_def)
      then show ?thesis
        using settles_comp [OF settles_columns_loop Cons.IH] by simp
    qed
  qed
qed

text \<open>
  C7. Harvesting a file into the knowledge base that harvesting the same file has
  produced changes nothing, whatever the knowledge base was at the start; so the
  sorted value lists after two harvests into the empty knowledge base are those after
  one. A table is the file with that one sheet.
\<close>

theorem harvest_twice:
  "process_excel_file kws wl file (process_excel_file kws wl file all_data)
     = process_excel_file kws wl file all_data
   \<and> finalize (process_excel_file kws wl file (process_excel_file kws wl file Map.empty))
     = finalize (process_excel_file kws wl file Map.empty)"
proof -
  have "settles (process_excel_file kws wl file)"
    unfolding process_excel_file_def by (rule settles_sheets_loop)
  then have "process_excel_file kws wl file (process_excel_file kws wl file kb)
     = process_excel_file kws wl file kb" for kb
    unfolding settles_def using kb_le_refl by blast
  then show ?thesis
    by simp
qed

section \<open>C3: the sheets of one file\<close>

text \<open>
  C3 on a file of two sheets, the first with the standard column and the value \<^verbatim>\<open>A312\<close>,
  the second with the material column and the value \<^verbatim>\<open>SS316\<close>. The round of the second
  sheet takes its column names from the second sheet and its data from the first
  (\<^verbatim>\<open>sheet_name=0\<close>): the material column receives \<^verbatim>\<open>A312\<close>, and \<^verbatim>\<open>SS316\<close> is never
  harvested. And on a file whose first sheet is empty the function returns at once:
  the second sheet contributes nothing.
\<close>

theorem sheets_data_from_first_sheet:
  "process_excel_file skip_keywords white_list_keywords file_two_sheets Map.empty standard_col
     = Some {ustr ''A312''}
   \<and> process_excel_file skip_keywords white_list_keywords file_two_sheets Map.empty material_col
     = Some {ustr ''A312''}
   \<and> process_excel_file skip_keywords white_list_keywords file_empty_first Map.empty
     = Map.empty
   \<and> process_excel_file skip_keywords white_list_keywords (tl file_empty_first) Map.empty
       material_col
     = Some {ustr ''SS316''}"
  by (simp add: harv_defs file_two_sheets_def file_empty_first_def str_defs num_defs col_defs
      enumerate_eq_zip upt_rec del: set_filter)

end
